theory Spec2Isabelle
  imports
    Main
    "HOL-Library.AList"
    "HOL-Library.Char_ord"
    "HOL-Library.List_Lexorder"
    "HOL-Library.Multiset"
begin

section \<open>Data model (lib/types.ts)\<close>

text \<open>
  A JavaScript \<^verbatim>\<open>Record<string, V>\<close> is an association list with distinct keys, kept in
  the order in which \<^verbatim>\<open>Object.keys\<close> enumerates them. A read \<^verbatim>\<open>r[k]\<close> is
  \<open>map_of r k\<close> (\<open>None\<close> for \<^verbatim>\<open>undefined\<close>), an assignment \<^verbatim>\<open>r[k] = v\<close> is
  \<open>AList.update k v r\<close>: the value is replaced in place when the key exists and
  appended otherwise. Keys are ordinary names: Salesforce identifiers and API names are
  neither canonical array indices (which JavaScript enumerates first) nor names of
  \<^verbatim>\<open>Object.prototype\<close>. Strings are lists of characters compared lexicographically, as
  the default \<^verbatim>\<open>Array.prototype.sort\<close> compares them.

  Three properties are renamed, their names being taken in Isabelle: \<^verbatim>\<open>ObjectAccess.fields\<close>
  is \<open>fieldMap\<close>, \<^verbatim>\<open>AppVisibility.default\<close> is \<open>isDefault\<close> and \<^verbatim>\<open>DiffItem.values\<close> is
  \<open>vals\<close>; the two properties of a \<^verbatim>\<open>FieldPermission\<close> are \<open>fp_read\<close> and \<open>fp_edit\<close>.
  An optional property that is not set is \<open>None\<close>.
\<close>

type_synonym 'v Record = "(string \<times> 'v) list"

datatype DiffType = Added | Removed | Changed | Unchanged

text \<open>The values of a \<^verbatim>\<open>DiffItem\<close> are booleans, or strings for tab visibilities.\<close>

datatype jsval = JBool bool | JStr string

record ObjectPermission =
  read :: bool
  create :: bool
  edit :: bool
  delete :: bool
  viewAll :: bool
  modifyAll :: bool

record FieldPermission =
  fp_read :: bool
  fp_edit :: bool

record ObjectAccess =
  permissions :: ObjectPermission
  fieldMap :: "FieldPermission Record"

record AppVisibility =
  visible :: bool
  isDefault :: bool

record NormalizedProfile =
  profileId :: string
  profileName :: string
  objects :: "ObjectAccess Record"
  systemPermissions :: "bool Record"
  apexClasses :: "string list"
  visualforcePages :: "string list"
  lightningPages :: "string list"
  recordTypes :: "string list"
  tabVisibilities :: "string Record"
  appVisibilities :: "AppVisibility Record"
  userPermissions :: "bool Record"

record DiffItem =
  path :: string
  category :: string
  objectName :: "string option"
  fieldName :: "string option"
  permissionName :: "string option"
  vals :: "jsval Record"
  diffType :: DiffType

record ComparisonResult =
  profiles :: "(string \<times> string) list"
  timestamp :: string
  totalDifferences :: nat
  differences :: "DiffItem list"
  summary :: "nat Record"

section \<open>The diff engine (lib/diff.ts)\<close>

text \<open>
  A JavaScript \<^verbatim>\<open>Set<string>\<close> iterates in insertion order: \<open>set_add\<close> appends an
  element that is not yet there.
\<close>

definition set_add :: "'a \<Rightarrow> 'a list \<Rightarrow> 'a list" where
  "set_add x xs = (if x \<in> set xs then xs else xs @ [x])"

text \<open>
  \<^verbatim>\<open>const values = {}; profiles.forEach(p => { values[p.profileId] = f(p) })\<close>,
  the loop each pass runs for one key.
\<close>

definition valuesOf :: "(NormalizedProfile \<Rightarrow> 'v) \<Rightarrow> NormalizedProfile list \<Rightarrow> 'v Record" where
  "valuesOf f ps = fold (\<lambda>p values. AList.update (profileId p) (f p) values) ps []"

text \<open>\<^verbatim>\<open>determineDiffType\<close>: the size of \<^verbatim>\<open>new Set(boolValues)\<close> is the number of distinct values.\<close>

definition determineDiffType :: "bool Record \<Rightarrow> DiffType" where
  "determineDiffType values =
     (let boolValues = map snd values;
          uniqueValues = remdups boolValues
      in if length uniqueValues = 1 then Unchanged
         else
           let trueCount = length (filter (\<lambda>v. v = True) boolValues);
               falseCount = length (filter (\<lambda>v. v = False) boolValues)
           in if trueCount = 1 \<and> falseCount > 0 then Added
              else if falseCount = 1 \<and> trueCount > 0 then Removed
              else Changed)"

definition determineDiffTypeForStrings :: "string Record \<Rightarrow> DiffType" where
  "determineDiffTypeForStrings values =
     (let uniqueValues = remdups (map snd values)
      in if length uniqueValues = 1 then Unchanged else Changed)"

text \<open>\<^verbatim>\<open>summary.k++\<close> on the counter record, whose nine keys \<^verbatim>\<open>compare\<close> creates.\<close>

definition incr :: "string \<Rightarrow> nat Record \<Rightarrow> nat Record" where
  "incr k summ = AList.map_entry k Suc summ"

definition boolVals :: "bool Record \<Rightarrow> jsval Record" where
  "boolVals values = map (\<lambda>(k, b). (k, JBool b)) values"

definition strVals :: "string Record \<Rightarrow> jsval Record" where
  "strVals values = map (\<lambda>(k, s). (k, JStr s)) values"

subsection \<open>Object permissions\<close>

definition permissionTypes :: "string list" where
  "permissionTypes = [''read'', ''create'', ''edit'', ''delete'', ''viewAll'', ''modifyAll'']"

text \<open>\<^verbatim>\<open>permissions[permType]\<close>; a name that is no property reads \<^verbatim>\<open>undefined\<close>.\<close>

definition getObjPerm :: "ObjectPermission \<Rightarrow> string \<Rightarrow> bool option" where
  "getObjPerm perm permType =
     (if permType = ''read'' then Some (read perm)
      else if permType = ''create'' then Some (create perm)
      else if permType = ''edit'' then Some (edit perm)
      else if permType = ''delete'' then Some (delete perm)
      else if permType = ''viewAll'' then Some (viewAll perm)
      else if permType = ''modifyAll'' then Some (modifyAll perm)
      else None)"

text \<open>\<^verbatim>\<open>p.objects[objectName]?.permissions?.[permType] ?? false\<close>\<close>

definition objPermValue :: "string \<Rightarrow> string \<Rightarrow> NormalizedProfile \<Rightarrow> bool" where
  "objPermValue objName permType p =
     (case map_of (objects p) objName of
        None \<Rightarrow> False
      | Some oa \<Rightarrow> (case getObjPerm (permissions oa) permType of None \<Rightarrow> False | Some b \<Rightarrow> b))"

definition allObjectNames :: "NormalizedProfile list \<Rightarrow> string list" where
  "allObjectNames ps = fold (\<lambda>p acc. fold set_add (map fst (objects p)) acc) ps []"

definition objectPermissionStep ::
  "NormalizedProfile list \<Rightarrow> bool \<Rightarrow> string \<Rightarrow> string \<Rightarrow>
   DiffItem list \<times> nat Record \<Rightarrow> DiffItem list \<times> nat Record" where
  "objectPermissionStep ps includeUnchanged objName permType st =
     (case st of (diffs, summ) \<Rightarrow>
        let values = valuesOf (objPermValue objName permType) ps;
            dt = determineDiffType values
        in if dt \<noteq> Unchanged \<or> includeUnchanged then
             (diffs @ [\<lparr>path = ''objects.'' @ objName @ ''.permissions.'' @ permType,
                        category = ''objectPermission'',
                        objectName = Some objName,
                        fieldName = None,
                        permissionName = Some permType,
                        vals = boolVals values,
                        diffType = dt\<rparr>],
              if dt \<noteq> Unchanged then incr ''objectPermissions'' summ else summ)
           else (diffs, summ))"

definition compareObjectPermissions ::
  "NormalizedProfile list \<Rightarrow> bool \<Rightarrow> DiffItem list \<times> nat Record \<Rightarrow> DiffItem list \<times> nat Record" where
  "compareObjectPermissions ps includeUnchanged st =
     fold (\<lambda>objName. fold (objectPermissionStep ps includeUnchanged objName) permissionTypes)
       (allObjectNames ps) st"

subsection \<open>Field permissions\<close>

text \<open>
  \<^verbatim>\<open>allFields\<close> is a \<^verbatim>\<open>Map<string, Set<string>>\<close>, iterated in insertion order; a set that
  is already there is updated in place.
\<close>

definition addFields :: "string \<times> ObjectAccess \<Rightarrow> (string list) Record \<Rightarrow> (string list) Record" where
  "addFields entry allFields =
     (case entry of (objName, objAccess) \<Rightarrow>
        let allFields1 = (if map_of allFields objName = None
                          then AList.update objName [] allFields else allFields)
        in fold (\<lambda>f m. AList.map_entry objName (set_add f) m) (map fst (fieldMap objAccess)) allFields1)"

definition allFieldNames :: "NormalizedProfile list \<Rightarrow> (string list) Record" where
  "allFieldNames ps = fold (\<lambda>p acc. fold addFields (objects p) acc) ps []"

definition fieldPermissionTypes :: "string list" where
  "fieldPermissionTypes = [''read'', ''edit'']"

definition getFieldPerm :: "FieldPermission \<Rightarrow> string \<Rightarrow> bool option" where
  "getFieldPerm perm permType =
     (if permType = ''read'' then Some (fp_read perm)
      else if permType = ''edit'' then Some (fp_edit perm)
      else None)"

text \<open>\<^verbatim>\<open>p.objects[objectName]?.fields?.[fieldName]?.[permType] ?? false\<close>\<close>

definition fieldPermValue :: "string \<Rightarrow> string \<Rightarrow> string \<Rightarrow> NormalizedProfile \<Rightarrow> bool" where
  "fieldPermValue objName fldName permType p =
     (case map_of (objects p) objName of
        None \<Rightarrow> False
      | Some oa \<Rightarrow>
          (case map_of (fieldMap oa) fldName of
             None \<Rightarrow> False
           | Some fp \<Rightarrow> (case getFieldPerm fp permType of None \<Rightarrow> False | Some b \<Rightarrow> b)))"

definition fieldPermissionStep ::
  "NormalizedProfile list \<Rightarrow> bool \<Rightarrow> string \<Rightarrow> string \<Rightarrow> string \<Rightarrow>
   DiffItem list \<times> nat Record \<Rightarrow> DiffItem list \<times> nat Record" where
  "fieldPermissionStep ps includeUnchanged objName fldName permType st =
     (case st of (diffs, summ) \<Rightarrow>
        let values = valuesOf (fieldPermValue objName fldName permType) ps;
            dt = determineDiffType values
        in if dt \<noteq> Unchanged \<or> includeUnchanged then
             (diffs @ [\<lparr>path = ''objects.'' @ objName @ ''.fields.'' @ fldName @ ''.'' @ permType,
                        category = ''fieldPermission'',
                        objectName = Some objName,
                        fieldName = Some fldName,
                        permissionName = Some permType,
                        vals = boolVals values,
                        diffType = dt\<rparr>],
              if dt \<noteq> Unchanged then incr ''fieldPermissions'' summ else summ)
           else (diffs, summ))"

definition compareFieldPermissions ::
  "NormalizedProfile list \<Rightarrow> bool \<Rightarrow> DiffItem list \<times> nat Record \<Rightarrow> DiffItem list \<times> nat Record" where
  "compareFieldPermissions ps includeUnchanged st =
     fold (\<lambda>(objName, fieldNames).
             fold (\<lambda>fldName. fold (fieldPermissionStep ps includeUnchanged objName fldName)
                                fieldPermissionTypes) fieldNames)
       (allFieldNames ps) st"

subsection \<open>System permissions\<close>

definition allPermissionNames :: "NormalizedProfile list \<Rightarrow> string list" where
  "allPermissionNames ps = fold (\<lambda>p acc. fold set_add (map fst (systemPermissions p)) acc) ps []"

text \<open>\<^verbatim>\<open>p.systemPermissions[permName] ?? false\<close>\<close>

definition sysPermValue :: "string \<Rightarrow> NormalizedProfile \<Rightarrow> bool" where
  "sysPermValue permName p =
     (case map_of (systemPermissions p) permName of None \<Rightarrow> False | Some b \<Rightarrow> b)"

definition systemPermissionStep ::
  "NormalizedProfile list \<Rightarrow> bool \<Rightarrow> string \<Rightarrow>
   DiffItem list \<times> nat Record \<Rightarrow> DiffItem list \<times> nat Record" where
  "systemPermissionStep ps includeUnchanged permName st =
     (case st of (diffs, summ) \<Rightarrow>
        let values = valuesOf (sysPermValue permName) ps;
            dt = determineDiffType values
        in if dt \<noteq> Unchanged \<or> includeUnchanged then
             (diffs @ [\<lparr>path = ''systemPermissions.'' @ permName,
                        category = ''systemPermission'',
                        objectName = None,
                        fieldName = None,
                        permissionName = Some permName,
                        vals = boolVals values,
                        diffType = dt\<rparr>],
              if dt \<noteq> Unchanged then incr ''systemPermissions'' summ else summ)
           else (diffs, summ))"

definition compareSystemPermissions ::
  "NormalizedProfile list \<Rightarrow> bool \<Rightarrow> DiffItem list \<times> nat Record \<Rightarrow> DiffItem list \<times> nat Record" where
  "compareSystemPermissions ps includeUnchanged st =
     fold (systemPermissionStep ps includeUnchanged) (allPermissionNames ps) st"

subsection \<open>List-valued properties\<close>

text \<open>
  \<^verbatim>\<open>p[propertyName] as string[]\<close> guarded by \<^verbatim>\<open>Array.isArray\<close>: the four list
  properties are the arrays of a \<^verbatim>\<open>NormalizedProfile\<close>, any other property is none.
\<close>

definition arrayProperty :: "string \<Rightarrow> NormalizedProfile \<Rightarrow> string list option" where
  "arrayProperty propertyName p =
     (if propertyName = ''apexClasses'' then Some (apexClasses p)
      else if propertyName = ''visualforcePages'' then Some (visualforcePages p)
      else if propertyName = ''lightningPages'' then Some (lightningPages p)
      else if propertyName = ''recordTypes'' then Some (recordTypes p)
      else None)"

definition categoryToSummaryKey :: "string Record" where
  "categoryToSummaryKey =
     [(''apexClass'', ''apexClasses''),
      (''visualforcePage'', ''visualforcePages''),
      (''lightningPage'', ''lightningPages''),
      (''recordType'', ''recordTypes'')]"

text \<open>\<^verbatim>\<open>categoryToSummaryKey[category] || `${category}s`\<close>: the empty string is falsy too.\<close>

definition summaryKeyOf :: "string \<Rightarrow> string" where
  "summaryKeyOf cat =
     (case map_of categoryToSummaryKey cat of
        None \<Rightarrow> cat @ ''s''
      | Some k \<Rightarrow> if k = [] then cat @ ''s'' else k)"

definition allItems :: "string \<Rightarrow> NormalizedProfile list \<Rightarrow> string list" where
  "allItems propertyName ps =
     fold (\<lambda>p acc. case arrayProperty propertyName p of
                      None \<Rightarrow> acc
                    | Some items \<Rightarrow> fold set_add items acc) ps []"

text \<open>\<^verbatim>\<open>Array.isArray(items) && items.includes(item)\<close>\<close>

definition itemValue :: "string \<Rightarrow> string \<Rightarrow> NormalizedProfile \<Rightarrow> bool" where
  "itemValue propertyName item p =
     (case arrayProperty propertyName p of None \<Rightarrow> False | Some items \<Rightarrow> item \<in> set items)"

definition arrayPropertyStep ::
  "NormalizedProfile list \<Rightarrow> string \<Rightarrow> string \<Rightarrow> bool \<Rightarrow> string \<Rightarrow>
   DiffItem list \<times> nat Record \<Rightarrow> DiffItem list \<times> nat Record" where
  "arrayPropertyStep ps propertyName cat includeUnchanged item st =
     (case st of (diffs, summ) \<Rightarrow>
        let summaryKey = summaryKeyOf cat;
            values = valuesOf (itemValue propertyName item) ps;
            dt = determineDiffType values
        in if dt \<noteq> Unchanged \<or> includeUnchanged then
             (diffs @ [\<lparr>path = propertyName @ ''.'' @ item,
                        category = cat,
                        objectName = None,
                        fieldName = None,
                        permissionName = Some item,
                        vals = boolVals values,
                        diffType = dt\<rparr>],
              if dt \<noteq> Unchanged \<and> summaryKey \<in> set (map fst summ)
              then incr summaryKey summ else summ)
           else (diffs, summ))"

definition compareArrayProperty ::
  "NormalizedProfile list \<Rightarrow> string \<Rightarrow> string \<Rightarrow> bool \<Rightarrow>
   DiffItem list \<times> nat Record \<Rightarrow> DiffItem list \<times> nat Record" where
  "compareArrayProperty ps propertyName cat includeUnchanged st =
     fold (arrayPropertyStep ps propertyName cat includeUnchanged) (allItems propertyName ps) st"

subsection \<open>Tab and app visibilities\<close>

definition allTabs :: "NormalizedProfile list \<Rightarrow> string list" where
  "allTabs ps = fold (\<lambda>p acc. fold set_add (map fst (tabVisibilities p)) acc) ps []"

text \<open>\<^verbatim>\<open>p.tabVisibilities[tabName] ?? 'Hidden'\<close>\<close>

definition tabValue :: "string \<Rightarrow> NormalizedProfile \<Rightarrow> string" where
  "tabValue tabName p =
     (case map_of (tabVisibilities p) tabName of None \<Rightarrow> ''Hidden'' | Some v \<Rightarrow> v)"

definition tabVisibilityStep ::
  "NormalizedProfile list \<Rightarrow> bool \<Rightarrow> string \<Rightarrow>
   DiffItem list \<times> nat Record \<Rightarrow> DiffItem list \<times> nat Record" where
  "tabVisibilityStep ps includeUnchanged tabName st =
     (case st of (diffs, summ) \<Rightarrow>
        let values = valuesOf (tabValue tabName) ps;
            dt = determineDiffTypeForStrings values
        in if dt \<noteq> Unchanged \<or> includeUnchanged then
             (diffs @ [\<lparr>path = ''tabVisibilities.'' @ tabName,
                        category = ''tabVisibility'',
                        objectName = None,
                        fieldName = None,
                        permissionName = Some tabName,
                        vals = strVals values,
                        diffType = dt\<rparr>],
              if dt \<noteq> Unchanged then incr ''tabVisibilities'' summ else summ)
           else (diffs, summ))"

definition compareTabVisibilities ::
  "NormalizedProfile list \<Rightarrow> bool \<Rightarrow> DiffItem list \<times> nat Record \<Rightarrow> DiffItem list \<times> nat Record" where
  "compareTabVisibilities ps includeUnchanged st =
     fold (tabVisibilityStep ps includeUnchanged) (allTabs ps) st"

definition allApps :: "NormalizedProfile list \<Rightarrow> string list" where
  "allApps ps = fold (\<lambda>p acc. fold set_add (map fst (appVisibilities p)) acc) ps []"

text \<open>\<^verbatim>\<open>appVis?.visible ?? false\<close> and \<^verbatim>\<open>appVis?.default ?? false\<close>\<close>

definition appVisibleValue :: "string \<Rightarrow> NormalizedProfile \<Rightarrow> bool" where
  "appVisibleValue appName p =
     (case map_of (appVisibilities p) appName of None \<Rightarrow> False | Some appVis \<Rightarrow> visible appVis)"

definition appDefaultValue :: "string \<Rightarrow> NormalizedProfile \<Rightarrow> bool" where
  "appDefaultValue appName p =
     (case map_of (appVisibilities p) appName of None \<Rightarrow> False | Some appVis \<Rightarrow> isDefault appVis)"

definition appVisibilityStep ::
  "NormalizedProfile list \<Rightarrow> bool \<Rightarrow> string \<Rightarrow>
   DiffItem list \<times> nat Record \<Rightarrow> DiffItem list \<times> nat Record" where
  "appVisibilityStep ps includeUnchanged appName st =
     (case st of (diffs, summ) \<Rightarrow>
        let visibleValues = valuesOf (appVisibleValue appName) ps;
            defaultValues = valuesOf (appDefaultValue appName) ps;
            visibleDiffType = determineDiffType visibleValues;
            defaultDiffType = determineDiffType defaultValues;
            st1 = (if visibleDiffType \<noteq> Unchanged \<or> includeUnchanged then
                     (diffs @ [\<lparr>path = ''appVisibilities.'' @ appName @ ''.visible'',
                                category = ''appVisibility'',
                                objectName = None,
                                fieldName = None,
                                permissionName = Some (appName @ '' (Visible)''),
                                vals = boolVals visibleValues,
                                diffType = visibleDiffType\<rparr>],
                      if visibleDiffType \<noteq> Unchanged then incr ''appVisibilities'' summ else summ)
                   else (diffs, summ))
        in if defaultDiffType \<noteq> Unchanged \<or> includeUnchanged then
             (fst st1 @ [\<lparr>path = ''appVisibilities.'' @ appName @ ''.default'',
                           category = ''appVisibility'',
                           objectName = None,
                           fieldName = None,
                           permissionName = Some (appName @ '' (Default)''),
                           vals = boolVals defaultValues,
                           diffType = defaultDiffType\<rparr>],
              if defaultDiffType \<noteq> Unchanged then incr ''appVisibilities'' (snd st1) else snd st1)
           else st1)"

definition compareAppVisibilities ::
  "NormalizedProfile list \<Rightarrow> bool \<Rightarrow> DiffItem list \<times> nat Record \<Rightarrow> DiffItem list \<times> nat Record" where
  "compareAppVisibilities ps includeUnchanged st =
     fold (appVisibilityStep ps includeUnchanged) (allApps ps) st"

subsection \<open>compare\<close>

definition initialSummary :: "nat Record" where
  "initialSummary =
     [(''objectPermissions'', 0), (''fieldPermissions'', 0), (''systemPermissions'', 0),
      (''apexClasses'', 0), (''visualforcePages'', 0), (''lightningPages'', 0),
      (''recordTypes'', 0), (''tabVisibilities'', 0), (''appVisibilities'', 0)]"

text \<open>
  The nine passes thread the two mutable locals \<^verbatim>\<open>differences\<close> and \<^verbatim>\<open>summary\<close>.
\<close>

definition comparePasses :: "NormalizedProfile list \<Rightarrow> bool \<Rightarrow> DiffItem list \<times> nat Record" where
  "comparePasses ps includeUnchanged =
     (let st0 = ([], initialSummary);
          st1 = compareObjectPermissions ps includeUnchanged st0;
          st2 = compareFieldPermissions ps includeUnchanged st1;
          st3 = compareSystemPermissions ps includeUnchanged st2;
          st4 = compareArrayProperty ps ''apexClasses'' ''apexClass'' includeUnchanged st3;
          st5 = compareArrayProperty ps ''visualforcePages'' ''visualforcePage'' includeUnchanged st4;
          st6 = compareArrayProperty ps ''lightningPages'' ''lightningPage'' includeUnchanged st5;
          st7 = compareArrayProperty ps ''recordTypes'' ''recordType'' includeUnchanged st6;
          st8 = compareTabVisibilities ps includeUnchanged st7
      in compareAppVisibilities ps includeUnchanged st8)"

text \<open>
  \<^verbatim>\<open>compare\<close> reads the wall clock once, for the timestamp: \<open>now\<close> is the string
  \<^verbatim>\<open>new Date().toISOString()\<close> returns at that moment.
\<close>

definition compare :: "string \<Rightarrow> NormalizedProfile list \<Rightarrow> bool \<Rightarrow> ComparisonResult" where
  "compare now ps includeUnchanged =
     (case comparePasses ps includeUnchanged of (diffs, summ) \<Rightarrow>
        \<lparr>profiles = map (\<lambda>p. (profileId p, profileName p)) ps,
         timestamp = now,
         totalDifferences = length (filter (\<lambda>d. diffType d \<noteq> Unchanged) diffs),
         differences = diffs,
         summary = summ\<rparr>)"

section \<open>The profile normalizer (lib/normalizer.ts)\<close>

subsection \<open>Raw records of the Salesforce API\<close>

text \<open>
  The properties of the raw records carry a prefix for their record (\<open>prof_\<close>, \<open>o_\<close>,
  \<open>f_\<close>, \<open>s_\<close>, \<open>a_\<close>), as several records share property names; the properties of a
  bundle carry \<open>b_\<close>. The optional \<^verbatim>\<open>UserType\<close> and \<^verbatim>\<open>Description\<close> of a profile are
  never read and are left out.
\<close>

record SalesforceProfile =
  prof_Id :: string
  prof_Name :: string
  prof_UserLicenseId :: string

record SalesforceObjectPermission =
  o_Id :: string
  o_ParentId :: string
  o_SobjectType :: string
  o_PermissionsCreate :: bool
  o_PermissionsRead :: bool
  o_PermissionsEdit :: bool
  o_PermissionsDelete :: bool
  o_PermissionsViewAllRecords :: bool
  o_PermissionsModifyAllRecords :: bool

record SalesforceFieldPermission =
  f_Id :: string
  f_ParentId :: string
  f_SobjectType :: string
  f_Field :: string
  f_PermissionsRead :: bool
  f_PermissionsEdit :: bool

text \<open>
  A permission set carries an open-ended set of further properties
  (\<^verbatim>\<open>[key: string]: any\<close>), kept in \<open>s_rest\<close> in enumeration order.
\<close>

datatype jsany = AnyBool bool | AnyString string | AnyOther

record SalesforcePermissionSet =
  s_Id :: string
  s_Name :: string
  s_ProfileId :: "string option"
  s_IsOwnedByProfile :: bool
  s_rest :: "jsany Record"

record SalesforceSetupEntityAccess =
  a_Id :: string
  a_ParentId :: string
  a_SetupEntityId :: string
  a_SetupEntityType :: string

record ProfileDataBundle =
  b_objectPermissions :: "SalesforceObjectPermission list"
  b_fieldPermissions :: "SalesforceFieldPermission list"
  b_systemPermissions :: "bool Record"
  b_apexClasses :: "string list"
  b_visualforcePages :: "string list"
  b_lightningPages :: "string list"
  b_recordTypes :: "string list"
  b_tabs :: "string list"
  b_apps :: "string list"

subsection \<open>buildNormalizedProfile\<close>

text \<open>\<^verbatim>\<open>s.split('.')\<close>: the segments between the dots; the empty string has one empty segment.\<close>

fun splitDot :: "string \<Rightarrow> string list" where
  "splitDot [] = [[]]"
| "splitDot (c # cs) =
     (if c = CHR ''.'' then [] # splitDot cs
      else (case splitDot cs of [] \<Rightarrow> [[c]] | seg # segs \<Rightarrow> (c # seg) # segs))"

text \<open>
  \<^verbatim>\<open>fieldPerm.Field.split('.')[1] || fieldPerm.Field\<close>: a missing second segment is
  \<^verbatim>\<open>undefined\<close> and an empty one is the empty string; both are falsy.
\<close>

definition fieldNameOf :: "string \<Rightarrow> string" where
  "fieldNameOf fld =
     (case splitDot fld of
        _ # seg # _ \<Rightarrow> if seg = [] then fld else seg
      | _ \<Rightarrow> fld)"

definition objectStep :: "SalesforceObjectPermission \<Rightarrow> ObjectAccess Record \<Rightarrow> ObjectAccess Record" where
  "objectStep objPerm objs =
     AList.update (o_SobjectType objPerm)
       \<lparr>permissions = \<lparr>read = o_PermissionsRead objPerm,
                       create = o_PermissionsCreate objPerm,
                       edit = o_PermissionsEdit objPerm,
                       delete = o_PermissionsDelete objPerm,
                       viewAll = o_PermissionsViewAllRecords objPerm,
                       modifyAll = o_PermissionsModifyAllRecords objPerm\<rparr>,
        fieldMap = []\<rparr> objs"

definition defaultObjectPermission :: ObjectPermission where
  "defaultObjectPermission =
     \<lparr>read = False, create = False, edit = False, delete = False, viewAll = False, modifyAll = False\<rparr>"

text \<open>
  One field-permission row: the object entry is created with the default permissions when
  \<^verbatim>\<open>!objects[objectName]\<close>, then its \<^verbatim>\<open>fields[fieldName]\<close> is assigned.
\<close>

definition fieldStep :: "SalesforceFieldPermission \<Rightarrow> ObjectAccess Record \<Rightarrow> ObjectAccess Record" where
  "fieldStep fieldPerm objs =
     (let objName = f_SobjectType fieldPerm;
          fldName = fieldNameOf (f_Field fieldPerm);
          entry = \<lparr>fp_read = f_PermissionsRead fieldPerm, fp_edit = f_PermissionsEdit fieldPerm\<rparr>;
          oa = (case map_of objs objName of
                  None \<Rightarrow> \<lparr>permissions = defaultObjectPermission, fieldMap = []\<rparr>
                | Some oa \<Rightarrow> oa)
      in AList.update objName (oa\<lparr>fieldMap := AList.update fldName entry (fieldMap oa)\<rparr>) objs)"

definition buildNormalizedProfile :: "SalesforceProfile \<Rightarrow> ProfileDataBundle \<Rightarrow> NormalizedProfile" where
  "buildNormalizedProfile profile data =
     (let objs0 = fold objectStep (b_objectPermissions data) [];
          objs = fold fieldStep (b_fieldPermissions data) objs0;
          tabVis = fold (\<lambda>tab m. AList.update tab ''Visible'' m) (sort (b_tabs data)) [];
          appVis = fold (\<lambda>app m. AList.update app \<lparr>visible = True, isDefault = False\<rparr> m)
                     (sort (b_apps data)) []
      in \<lparr>profileId = prof_Id profile,
          profileName = prof_Name profile,
          objects = objs,
          systemPermissions = b_systemPermissions data,
          apexClasses = sort (b_apexClasses data),
          visualforcePages = sort (b_visualforcePages data),
          lightningPages = sort (b_lightningPages data),
          recordTypes = sort (b_recordTypes data),
          tabVisibilities = tabVis,
          appVisibilities = appVis,
          userPermissions = b_systemPermissions data\<rparr>)"

subsection \<open>groupDataByProfile\<close>

text \<open>
  A \<^verbatim>\<open>Map\<close> that is only read with \<^verbatim>\<open>get\<close> and written with \<^verbatim>\<open>set\<close> is a
  partial function. A string is truthy when it is not empty.
\<close>

definition emptyBundle :: ProfileDataBundle where
  "emptyBundle =
     \<lparr>b_objectPermissions = [], b_fieldPermissions = [], b_systemPermissions = [],
      b_apexClasses = [], b_visualforcePages = [], b_lightningPages = [],
      b_recordTypes = [], b_tabs = [], b_apps = []\<rparr>"

text \<open>\<^verbatim>\<open>const profileId = map.get(parentId); if (profileId) result.get(profileId)?...\<close>\<close>

definition withBundle ::
  "(string \<rightharpoonup> string) \<Rightarrow> string \<Rightarrow> (ProfileDataBundle \<Rightarrow> ProfileDataBundle) \<Rightarrow>
   (string \<rightharpoonup> ProfileDataBundle) \<Rightarrow> (string \<rightharpoonup> ProfileDataBundle)" where
  "withBundle permSetToProfileMap parentId upd result =
     (case permSetToProfileMap parentId of
        None \<Rightarrow> result
      | Some pid \<Rightarrow>
          if pid = [] then result
          else (case result pid of
                  None \<Rightarrow> result
                | Some bundle \<Rightarrow> result(pid \<mapsto> upd bundle)))"

text \<open>
  The system permissions of a permission set: every boolean property whose key starts with
  \<^verbatim>\<open>Permissions\<close>, under the key without that prefix.
\<close>

definition startsWith :: "string \<Rightarrow> string \<Rightarrow> bool" where
  "startsWith s pre = (take (length pre) s = pre)"

definition systemPermsOf :: "SalesforcePermissionSet \<Rightarrow> bool Record" where
  "systemPermsOf permSet =
     fold (\<lambda>(key, v) systemPerms.
             case v of
               AnyBool b \<Rightarrow>
                 if startsWith key ''Permissions''
                 then AList.update (drop (length ''Permissions'') key) b systemPerms
                 else systemPerms
             | _ \<Rightarrow> systemPerms)
       (s_rest permSet) []"

definition permSetStep ::
  "SalesforcePermissionSet \<Rightarrow> (string \<rightharpoonup> ProfileDataBundle) \<Rightarrow> (string \<rightharpoonup> ProfileDataBundle)" where
  "permSetStep permSet result =
     (case s_ProfileId permSet of
        None \<Rightarrow> result
      | Some pid \<Rightarrow>
          if pid = [] then result
          else (case result pid of
                  None \<Rightarrow> result
                | Some bundle \<Rightarrow> result(pid \<mapsto> bundle\<lparr>b_systemPermissions := systemPermsOf permSet\<rparr>)))"

text \<open>\<^verbatim>\<open>const name = names.get(id); if (name) list.push(name)\<close>\<close>

definition pushName :: "(string \<rightharpoonup> string) \<Rightarrow> string \<Rightarrow> string list \<Rightarrow> string list" where
  "pushName names entityId xs =
     (case names entityId of None \<Rightarrow> xs | Some name \<Rightarrow> if name = [] then xs else xs @ [name])"

definition accessStep ::
  "(string \<rightharpoonup> string) \<Rightarrow> (string \<rightharpoonup> string) \<Rightarrow> (string \<rightharpoonup> string) \<Rightarrow>
   (string \<rightharpoonup> string) \<Rightarrow> (string \<rightharpoonup> string) \<Rightarrow> (string \<rightharpoonup> string) \<Rightarrow>
   SalesforceSetupEntityAccess \<Rightarrow>
   (string \<rightharpoonup> ProfileDataBundle) \<Rightarrow> (string \<rightharpoonup> ProfileDataBundle)" where
  "accessStep permSetToProfileMap apexClassNames apexPageNames recordTypeNames customTabNames
     customAppNames access result =
     withBundle permSetToProfileMap (a_ParentId access)
       (\<lambda>bundle.
          let ty = a_SetupEntityType access; eid = a_SetupEntityId access
          in if ty = ''ApexClass'' then
               bundle\<lparr>b_apexClasses := pushName apexClassNames eid (b_apexClasses bundle)\<rparr>
             else if ty = ''ApexPage'' then
               bundle\<lparr>b_visualforcePages := pushName apexPageNames eid (b_visualforcePages bundle)\<rparr>
             else if ty = ''RecordType'' then
               bundle\<lparr>b_recordTypes := pushName recordTypeNames eid (b_recordTypes bundle)\<rparr>
             else if ty = ''TabSet'' then
               bundle\<lparr>b_apps := pushName customAppNames eid (b_apps bundle)\<rparr>
             else if ty = ''CustomTab'' then
               bundle\<lparr>b_tabs := pushName customTabNames eid (b_tabs bundle)\<rparr>
             else bundle)
       result"

definition groupDataByProfile ::
  "string list \<Rightarrow> (string \<rightharpoonup> string) \<Rightarrow> SalesforceObjectPermission list \<Rightarrow>
   SalesforceFieldPermission list \<Rightarrow> SalesforcePermissionSet list \<Rightarrow>
   SalesforceSetupEntityAccess list \<Rightarrow> (string \<rightharpoonup> string) \<Rightarrow> (string \<rightharpoonup> string) \<Rightarrow>
   (string \<rightharpoonup> string) \<Rightarrow> (string \<rightharpoonup> string) \<Rightarrow> (string \<rightharpoonup> string) \<Rightarrow>
   (string \<rightharpoonup> ProfileDataBundle)" where
  "groupDataByProfile profileIds permSetToProfileMap objectPerms fieldPerms permissionSets
     setupEntityAccess apexClassNames apexPageNames recordTypeNames customTabNames customAppNames =
     (let r0 = fold (\<lambda>pid result. result(pid \<mapsto> emptyBundle)) profileIds Map.empty;
          r1 = fold (\<lambda>objPerm. withBundle permSetToProfileMap (o_ParentId objPerm)
                       (\<lambda>bundle. bundle\<lparr>b_objectPermissions := b_objectPermissions bundle @ [objPerm]\<rparr>))
                 objectPerms r0;
          r2 = fold (\<lambda>fieldPerm. withBundle permSetToProfileMap (f_ParentId fieldPerm)
                       (\<lambda>bundle. bundle\<lparr>b_fieldPermissions := b_fieldPermissions bundle @ [fieldPerm]\<rparr>))
                 fieldPerms r1;
          r3 = fold permSetStep permissionSets r2
      in fold (accessStep permSetToProfileMap apexClassNames apexPageNames recordTypeNames
                 customTabNames customAppNames) setupEntityAccess r3)"

subsection \<open>normalizeProfiles\<close>

text \<open>
  The Salesforce service is the environment: each query either fails or returns its
  records. \<^verbatim>\<open>normalizeProfiles\<close> is modelled for a fresh \<^verbatim>\<open>ProfileNormalizer\<close>, as
  the request handlers create one for every request.
\<close>

datatype error = FetchFailed

record SfService =
  getAllProfiles :: "error + SalesforceProfile list"
  getProfilePermissionSetIds :: "string list \<Rightarrow> error + string Record"
  getObjectPermissions :: "string list \<Rightarrow> error + SalesforceObjectPermission list"
  getFieldPermissions :: "string list \<Rightarrow> error + SalesforceFieldPermission list"
  getPermissionSetWithSystemPerms :: "string list \<Rightarrow> error + SalesforcePermissionSet list"
  getSetupEntityAccess :: "string list \<Rightarrow> error + SalesforceSetupEntityAccess list"
  getApexClassNames :: "string list \<Rightarrow> error + (string \<rightharpoonup> string)"
  getApexPageNames :: "string list \<Rightarrow> error + (string \<rightharpoonup> string)"
  getRecordTypes :: "error + (string \<rightharpoonup> string)"
  getCustomTabs :: "error + (string \<rightharpoonup> string)"
  getCustomApps :: "error + (string \<rightharpoonup> string)"

text \<open>\<^verbatim>\<open>Promise.allSettled\<close>: a rejected query counts as the empty list.\<close>

definition settled :: "error + 'a list \<Rightarrow> 'a list" where
  "settled r = (case r of Inl _ \<Rightarrow> [] | Inr v \<Rightarrow> v)"

definition buildAll ::
  "(string \<rightharpoonup> SalesforceProfile) \<Rightarrow> (string \<rightharpoonup> ProfileDataBundle) \<Rightarrow> string list \<Rightarrow> NormalizedProfile list" where
  "buildAll profs profileData profileIds =
     fold (\<lambda>pid normalizedProfiles.
             case profs pid of
               None \<Rightarrow> normalizedProfiles
             | Some profile \<Rightarrow>
                 (case profileData pid of
                    None \<Rightarrow> normalizedProfiles
                  | Some data \<Rightarrow> normalizedProfiles @ [buildNormalizedProfile profile data]))
       profileIds []"

definition normalizeProfiles :: "SfService \<Rightarrow> string list \<Rightarrow> error + NormalizedProfile list" where
  "normalizeProfiles sf profileIds =
     (case getAllProfiles sf of
        Inl e \<Rightarrow> Inl e
      | Inr allProfiles \<Rightarrow>
          let profs = fold (\<lambda>p m. m(prof_Id p \<mapsto> p)) allProfiles Map.empty
          in (case getProfilePermissionSetIds sf profileIds of
                Inl e \<Rightarrow> Inl e
              | Inr profileToPermSetMap \<Rightarrow>
                  let permissionSetIds = map snd profileToPermSetMap;
                      permSetToProfileMap =
                        fold (\<lambda>(pid, permSetId) m. m(permSetId \<mapsto> pid)) profileToPermSetMap Map.empty;
                      objectPerms = settled (getObjectPermissions sf permissionSetIds);
                      fieldPerms = settled (getFieldPermissions sf permissionSetIds);
                      permissionSets = settled (getPermissionSetWithSystemPerms sf permissionSetIds);
                      setupEntityAccess = settled (getSetupEntityAccess sf permissionSetIds);
                      apexClassIds = map a_SetupEntityId
                        (filter (\<lambda>e. a_SetupEntityType e = ''ApexClass'') setupEntityAccess);
                      apexPageIds = map a_SetupEntityId
                        (filter (\<lambda>e. a_SetupEntityType e = ''ApexPage'') setupEntityAccess)
                  in (case (getApexClassNames sf apexClassIds, getApexPageNames sf apexPageIds,
                            getRecordTypes sf, getCustomTabs sf, getCustomApps sf) of
                        (Inr apexClassNames, Inr apexPageNames, Inr recordTypeNames,
                         Inr customTabNames, Inr customAppNames) \<Rightarrow>
                          Inr (buildAll profs
                                 (groupDataByProfile profileIds permSetToProfileMap objectPerms
                                    fieldPerms permissionSets setupEntityAccess apexClassNames
                                    apexPageNames recordTypeNames customTabNames customAppNames)
                                 profileIds)
                      | _ \<Rightarrow> Inl FetchFailed)))"

section \<open>The diff engine of the backend service (services/diff.service.ts)\<close>

text \<open>
  The backend carries its own copy of the engine, written with \<^verbatim>\<open>for ... of\<close> loops.
  Its methods are modelled one by one under the suffix \<open>_svc\<close>; the readers of a single
  value (\<open>objPermValue\<close>, \<open>fieldPermValue\<close>, ...) are the same expressions in both files.
  Its types are those of lib/types.ts.
\<close>

definition determineDiffType_svc :: "bool Record \<Rightarrow> DiffType" where
  "determineDiffType_svc values =
     (let boolValues = map snd values;
          uniqueValues = remdups boolValues
      in if length uniqueValues = 1 then Unchanged
         else
           let trueCount = length (filter (\<lambda>v. v = True) boolValues);
               falseCount = length (filter (\<lambda>v. v = False) boolValues)
           in if trueCount = 1 \<and> falseCount > 0 then Added
              else (if falseCount = 1 \<and> trueCount > 0 then Removed else Changed))"

definition determineDiffTypeForStrings_svc :: "string Record \<Rightarrow> DiffType" where
  "determineDiffTypeForStrings_svc values =
     (let strValues = map snd values;
          uniqueValues = remdups strValues
      in if length uniqueValues = 1 then Unchanged else Changed)"

subsection \<open>Object permissions (service)\<close>

definition allObjectNames_svc :: "NormalizedProfile list \<Rightarrow> string list" where
  "allObjectNames_svc ps = fold (\<lambda>p acc. fold set_add (map fst (objects p)) acc) ps []"

definition objectPermissionStep_svc ::
  "NormalizedProfile list \<Rightarrow> bool \<Rightarrow> string \<Rightarrow> string \<Rightarrow>
   DiffItem list \<times> nat Record \<Rightarrow> DiffItem list \<times> nat Record" where
  "objectPermissionStep_svc ps includeUnchanged objName permType st =
     (case st of (diffs, summ) \<Rightarrow>
        let values = valuesOf (objPermValue objName permType) ps;
            dt = determineDiffType_svc values
        in if dt \<noteq> Unchanged \<or> includeUnchanged then
             (diffs @ [\<lparr>path = ''objects.'' @ objName @ ''.permissions.'' @ permType,
                        category = ''objectPermission'',
                        objectName = Some objName,
                        fieldName = None,
                        permissionName = Some permType,
                        vals = boolVals values,
                        diffType = dt\<rparr>],
              if dt \<noteq> Unchanged then incr ''objectPermissions'' summ else summ)
           else (diffs, summ))"

definition compareObjectPermissions_svc ::
  "NormalizedProfile list \<Rightarrow> bool \<Rightarrow> DiffItem list \<times> nat Record \<Rightarrow> DiffItem list \<times> nat Record" where
  "compareObjectPermissions_svc ps includeUnchanged st =
     fold (\<lambda>objName. fold (objectPermissionStep_svc ps includeUnchanged objName) permissionTypes)
       (allObjectNames_svc ps) st"

subsection \<open>Field permissions (service)\<close>

definition addFields_svc :: "string \<times> ObjectAccess \<Rightarrow> (string list) Record \<Rightarrow> (string list) Record" where
  "addFields_svc entry allFields =
     (case entry of (objName, objAccess) \<Rightarrow>
        let allFields1 = (if map_of allFields objName = None
                          then AList.update objName [] allFields else allFields)
        in fold (\<lambda>f m. AList.map_entry objName (set_add f) m) (map fst (fieldMap objAccess)) allFields1)"

definition allFieldNames_svc :: "NormalizedProfile list \<Rightarrow> (string list) Record" where
  "allFieldNames_svc ps = fold (\<lambda>p acc. fold addFields_svc (objects p) acc) ps []"

definition fieldPermissionStep_svc ::
  "NormalizedProfile list \<Rightarrow> bool \<Rightarrow> string \<Rightarrow> string \<Rightarrow> string \<Rightarrow>
   DiffItem list \<times> nat Record \<Rightarrow> DiffItem list \<times> nat Record" where
  "fieldPermissionStep_svc ps includeUnchanged objName fldName permType st =
     (case st of (diffs, summ) \<Rightarrow>
        let values = valuesOf (fieldPermValue objName fldName permType) ps;
            dt = determineDiffType_svc values
        in if dt \<noteq> Unchanged \<or> includeUnchanged then
             (diffs @ [\<lparr>path = ''objects.'' @ objName @ ''.fields.'' @ fldName @ ''.'' @ permType,
                        category = ''fieldPermission'',
                        objectName = Some objName,
                        fieldName = Some fldName,
                        permissionName = Some permType,
                        vals = boolVals values,
                        diffType = dt\<rparr>],
              if dt \<noteq> Unchanged then incr ''fieldPermissions'' summ else summ)
           else (diffs, summ))"

definition compareFieldPermissions_svc ::
  "NormalizedProfile list \<Rightarrow> bool \<Rightarrow> DiffItem list \<times> nat Record \<Rightarrow> DiffItem list \<times> nat Record" where
  "compareFieldPermissions_svc ps includeUnchanged st =
     fold (\<lambda>(objName, fieldNames).
             fold (\<lambda>fldName. fold (fieldPermissionStep_svc ps includeUnchanged objName fldName)
                                fieldPermissionTypes) fieldNames)
       (allFieldNames_svc ps) st"

subsection \<open>System permissions (service)\<close>

definition allPermissionNames_svc :: "NormalizedProfile list \<Rightarrow> string list" where
  "allPermissionNames_svc ps = fold (\<lambda>p acc. fold set_add (map fst (systemPermissions p)) acc) ps []"

definition systemPermissionStep_svc ::
  "NormalizedProfile list \<Rightarrow> bool \<Rightarrow> string \<Rightarrow>
   DiffItem list \<times> nat Record \<Rightarrow> DiffItem list \<times> nat Record" where
  "systemPermissionStep_svc ps includeUnchanged permName st =
     (case st of (diffs, summ) \<Rightarrow>
        let values = valuesOf (sysPermValue permName) ps;
            dt = determineDiffType_svc values
        in if dt \<noteq> Unchanged \<or> includeUnchanged then
             (diffs @ [\<lparr>path = ''systemPermissions.'' @ permName,
                        category = ''systemPermission'',
                        objectName = None,
                        fieldName = None,
                        permissionName = Some permName,
                        vals = boolVals values,
                        diffType = dt\<rparr>],
              if dt \<noteq> Unchanged then incr ''systemPermissions'' summ else summ)
           else (diffs, summ))"

definition compareSystemPermissions_svc ::
  "NormalizedProfile list \<Rightarrow> bool \<Rightarrow> DiffItem list \<times> nat Record \<Rightarrow> DiffItem list \<times> nat Record" where
  "compareSystemPermissions_svc ps includeUnchanged st =
     fold (systemPermissionStep_svc ps includeUnchanged) (allPermissionNames_svc ps) st"

subsection \<open>List-valued properties (service)\<close>

definition categoryToSummaryKey_svc :: "string Record" where
  "categoryToSummaryKey_svc =
     [(''apexClass'', ''apexClasses''),
      (''visualforcePage'', ''visualforcePages''),
      (''lightningPage'', ''lightningPages''),
      (''recordType'', ''recordTypes'')]"

definition summaryKeyOf_svc :: "string \<Rightarrow> string" where
  "summaryKeyOf_svc cat =
     (case map_of categoryToSummaryKey_svc cat of
        None \<Rightarrow> cat @ ''s''
      | Some k \<Rightarrow> if k = [] then cat @ ''s'' else k)"

definition allItems_svc :: "string \<Rightarrow> NormalizedProfile list \<Rightarrow> string list" where
  "allItems_svc propertyName ps =
     fold (\<lambda>p acc. case arrayProperty propertyName p of
                      None \<Rightarrow> acc
                    | Some items \<Rightarrow> fold set_add items acc) ps []"

definition arrayPropertyStep_svc ::
  "NormalizedProfile list \<Rightarrow> string \<Rightarrow> string \<Rightarrow> bool \<Rightarrow> string \<Rightarrow>
   DiffItem list \<times> nat Record \<Rightarrow> DiffItem list \<times> nat Record" where
  "arrayPropertyStep_svc ps propertyName cat includeUnchanged item st =
     (case st of (diffs, summ) \<Rightarrow>
        let summaryKey = summaryKeyOf_svc cat;
            values = valuesOf (itemValue propertyName item) ps;
            dt = determineDiffType_svc values
        in if dt \<noteq> Unchanged \<or> includeUnchanged then
             (diffs @ [\<lparr>path = propertyName @ ''.'' @ item,
                        category = cat,
                        objectName = None,
                        fieldName = None,
                        permissionName = Some item,
                        vals = boolVals values,
                        diffType = dt\<rparr>],
              if dt \<noteq> Unchanged
              then (if summaryKey \<in> set (map fst summ) then incr summaryKey summ else summ)
              else summ)
           else (diffs, summ))"

definition compareArrayProperty_svc ::
  "NormalizedProfile list \<Rightarrow> string \<Rightarrow> string \<Rightarrow> bool \<Rightarrow>
   DiffItem list \<times> nat Record \<Rightarrow> DiffItem list \<times> nat Record" where
  "compareArrayProperty_svc ps propertyName cat includeUnchanged st =
     fold (arrayPropertyStep_svc ps propertyName cat includeUnchanged) (allItems_svc propertyName ps) st"

subsection \<open>Tab and app visibilities (service)\<close>

definition allTabs_svc :: "NormalizedProfile list \<Rightarrow> string list" where
  "allTabs_svc ps = fold (\<lambda>p acc. fold set_add (map fst (tabVisibilities p)) acc) ps []"

definition tabVisibilityStep_svc ::
  "NormalizedProfile list \<Rightarrow> bool \<Rightarrow> string \<Rightarrow>
   DiffItem list \<times> nat Record \<Rightarrow> DiffItem list \<times> nat Record" where
  "tabVisibilityStep_svc ps includeUnchanged tabName st =
     (case st of (diffs, summ) \<Rightarrow>
        let values = valuesOf (tabValue tabName) ps;
            dt = determineDiffTypeForStrings_svc values
        in if dt \<noteq> Unchanged \<or> includeUnchanged then
             (diffs @ [\<lparr>path = ''tabVisibilities.'' @ tabName,
                        category = ''tabVisibility'',
                        objectName = None,
                        fieldName = None,
                        permissionName = Some tabName,
                        vals = strVals values,
                        diffType = dt\<rparr>],
              if dt \<noteq> Unchanged then incr ''tabVisibilities'' summ else summ)
           else (diffs, summ))"

definition compareTabVisibilities_svc ::
  "NormalizedProfile list \<Rightarrow> bool \<Rightarrow> DiffItem list \<times> nat Record \<Rightarrow> DiffItem list \<times> nat Record" where
  "compareTabVisibilities_svc ps includeUnchanged st =
     fold (tabVisibilityStep_svc ps includeUnchanged) (allTabs_svc ps) st"

definition allApps_svc :: "NormalizedProfile list \<Rightarrow> string list" where
  "allApps_svc ps = fold (\<lambda>p acc. fold set_add (map fst (appVisibilities p)) acc) ps []"

definition appVisibilityStep_svc ::
  "NormalizedProfile list \<Rightarrow> bool \<Rightarrow> string \<Rightarrow>
   DiffItem list \<times> nat Record \<Rightarrow> DiffItem list \<times> nat Record" where
  "appVisibilityStep_svc ps includeUnchanged appName st =
     (case st of (diffs, summ) \<Rightarrow>
        let visibleValues = valuesOf (appVisibleValue appName) ps;
            defaultValues = valuesOf (appDefaultValue appName) ps;
            visibleDiffType = determineDiffType_svc visibleValues;
            defaultDiffType = determineDiffType_svc defaultValues;
            st1 = (if visibleDiffType \<noteq> Unchanged \<or> includeUnchanged then
                     (diffs @ [\<lparr>path = ''appVisibilities.'' @ appName @ ''.visible'',
                                category = ''appVisibility'',
                                objectName = None,
                                fieldName = None,
                                permissionName = Some (appName @ '' (Visible)''),
                                vals = boolVals visibleValues,
                                diffType = visibleDiffType\<rparr>],
                      if visibleDiffType \<noteq> Unchanged then incr ''appVisibilities'' summ else summ)
                   else (diffs, summ))
        in if defaultDiffType \<noteq> Unchanged \<or> includeUnchanged then
             (fst st1 @ [\<lparr>path = ''appVisibilities.'' @ appName @ ''.default'',
                           category = ''appVisibility'',
                           objectName = None,
                           fieldName = None,
                           permissionName = Some (appName @ '' (Default)''),
                           vals = boolVals defaultValues,
                           diffType = defaultDiffType\<rparr>],
              if defaultDiffType \<noteq> Unchanged then incr ''appVisibilities'' (snd st1) else snd st1)
           else st1)"

definition compareAppVisibilities_svc ::
  "NormalizedProfile list \<Rightarrow> bool \<Rightarrow> DiffItem list \<times> nat Record \<Rightarrow> DiffItem list \<times> nat Record" where
  "compareAppVisibilities_svc ps includeUnchanged st =
     fold (appVisibilityStep_svc ps includeUnchanged) (allApps_svc ps) st"

subsection \<open>compare (service)\<close>

definition initialSummary_svc :: "nat Record" where
  "initialSummary_svc =
     [(''objectPermissions'', 0), (''fieldPermissions'', 0), (''systemPermissions'', 0),
      (''apexClasses'', 0), (''visualforcePages'', 0), (''lightningPages'', 0),
      (''recordTypes'', 0), (''tabVisibilities'', 0), (''appVisibilities'', 0)]"

definition comparePasses_svc :: "NormalizedProfile list \<Rightarrow> bool \<Rightarrow> DiffItem list \<times> nat Record" where
  "comparePasses_svc ps includeUnchanged =
     (let st0 = ([], initialSummary_svc);
          st1 = compareObjectPermissions_svc ps includeUnchanged st0;
          st2 = compareFieldPermissions_svc ps includeUnchanged st1;
          st3 = compareSystemPermissions_svc ps includeUnchanged st2;
          st4 = compareArrayProperty_svc ps ''apexClasses'' ''apexClass'' includeUnchanged st3;
          st5 = compareArrayProperty_svc ps ''visualforcePages'' ''visualforcePage'' includeUnchanged st4;
          st6 = compareArrayProperty_svc ps ''lightningPages'' ''lightningPage'' includeUnchanged st5;
          st7 = compareArrayProperty_svc ps ''recordTypes'' ''recordType'' includeUnchanged st6;
          st8 = compareTabVisibilities_svc ps includeUnchanged st7
      in compareAppVisibilities_svc ps includeUnchanged st8)"

text \<open>
  \<^verbatim>\<open>compare_svc\<close> reads the wall clock once, for the timestamp: \<open>now\<close> is the string
  \<^verbatim>\<open>new Date().toISOString()\<close> returns at that moment.
\<close>

definition compare_svc :: "string \<Rightarrow> NormalizedProfile list \<Rightarrow> bool \<Rightarrow> ComparisonResult" where
  "compare_svc now ps includeUnchanged =
     (case comparePasses_svc ps includeUnchanged of (diffs, summ) \<Rightarrow>
        \<lparr>profiles = map (\<lambda>p. (profileId p, profileName p)) ps,
         timestamp = now,
         totalDifferences = length (filter (\<lambda>d. diffType d \<noteq> Unchanged) diffs),
         differences = diffs,
         summary = summ\<rparr>)"

section \<open>Auxiliary notions for the proofs\<close>

text \<open>
  Every pass ends in the same conditional push: the item is appended when its diff type is
  not \<open>Unchanged\<close> or \<^verbatim>\<open>includeUnchanged\<close> is set, and a counter is incremented when the
  diff type is not \<open>Unchanged\<close>. \<open>emit\<close> is that shape, and the \<open>Item\<close> functions are
  the records the passes build for one key; the lemmas below show that the steps of the
  model are instances of them.
\<close>

definition emit ::
  "string \<Rightarrow> bool \<Rightarrow> DiffItem \<Rightarrow> DiffItem list \<times> nat Record \<Rightarrow> DiffItem list \<times> nat Record" where
  "emit k includeUnchanged item st =
     (if diffType item \<noteq> Unchanged \<or> includeUnchanged
      then (fst st @ [item], if diffType item \<noteq> Unchanged then incr k (snd st) else snd st)
      else st)"

definition objItem :: "NormalizedProfile list \<Rightarrow> string \<Rightarrow> string \<Rightarrow> DiffItem" where
  "objItem ps objName permType =
     \<lparr>path = ''objects.'' @ objName @ ''.permissions.'' @ permType,
      category = ''objectPermission'', objectName = Some objName, fieldName = None,
      permissionName = Some permType,
      vals = boolVals (valuesOf (objPermValue objName permType) ps),
      diffType = determineDiffType (valuesOf (objPermValue objName permType) ps)\<rparr>"

definition fieldItem :: "NormalizedProfile list \<Rightarrow> string \<Rightarrow> string \<Rightarrow> string \<Rightarrow> DiffItem" where
  "fieldItem ps objName fldName permType =
     \<lparr>path = ''objects.'' @ objName @ ''.fields.'' @ fldName @ ''.'' @ permType,
      category = ''fieldPermission'', objectName = Some objName, fieldName = Some fldName,
      permissionName = Some permType,
      vals = boolVals (valuesOf (fieldPermValue objName fldName permType) ps),
      diffType = determineDiffType (valuesOf (fieldPermValue objName fldName permType) ps)\<rparr>"

definition sysItem :: "NormalizedProfile list \<Rightarrow> string \<Rightarrow> DiffItem" where
  "sysItem ps permName =
     \<lparr>path = ''systemPermissions.'' @ permName,
      category = ''systemPermission'', objectName = None, fieldName = None,
      permissionName = Some permName,
      vals = boolVals (valuesOf (sysPermValue permName) ps),
      diffType = determineDiffType (valuesOf (sysPermValue permName) ps)\<rparr>"

definition arrayItem :: "NormalizedProfile list \<Rightarrow> string \<Rightarrow> string \<Rightarrow> string \<Rightarrow> DiffItem" where
  "arrayItem ps propertyName cat item =
     \<lparr>path = propertyName @ ''.'' @ item,
      category = cat, objectName = None, fieldName = None,
      permissionName = Some item,
      vals = boolVals (valuesOf (itemValue propertyName item) ps),
      diffType = determineDiffType (valuesOf (itemValue propertyName item) ps)\<rparr>"

definition tabItem :: "NormalizedProfile list \<Rightarrow> string \<Rightarrow> DiffItem" where
  "tabItem ps tabName =
     \<lparr>path = ''tabVisibilities.'' @ tabName,
      category = ''tabVisibility'', objectName = None, fieldName = None,
      permissionName = Some tabName,
      vals = strVals (valuesOf (tabValue tabName) ps),
      diffType = determineDiffTypeForStrings (valuesOf (tabValue tabName) ps)\<rparr>"

definition appVisibleItem :: "NormalizedProfile list \<Rightarrow> string \<Rightarrow> DiffItem" where
  "appVisibleItem ps appName =
     \<lparr>path = ''appVisibilities.'' @ appName @ ''.visible'',
      category = ''appVisibility'', objectName = None, fieldName = None,
      permissionName = Some (appName @ '' (Visible)''),
      vals = boolVals (valuesOf (appVisibleValue appName) ps),
      diffType = determineDiffType (valuesOf (appVisibleValue appName) ps)\<rparr>"

definition appDefaultItem :: "NormalizedProfile list \<Rightarrow> string \<Rightarrow> DiffItem" where
  "appDefaultItem ps appName =
     \<lparr>path = ''appVisibilities.'' @ appName @ ''.default'',
      category = ''appVisibility'', objectName = None, fieldName = None,
      permissionName = Some (appName @ '' (Default)''),
      vals = boolVals (valuesOf (appDefaultValue appName) ps),
      diffType = determineDiffType (valuesOf (appDefaultValue appName) ps)\<rparr>"

text \<open>
  The nine categories of a \<^verbatim>\<open>DiffItem\<close>, each with the counter of \<^verbatim>\<open>summary\<close> that
  its pass increments.
\<close>

definition categoryCounters :: "(string \<times> string) list" where
  "categoryCounters =
     [(''objectPermission'', ''objectPermissions''),
      (''fieldPermission'', ''fieldPermissions''),
      (''systemPermission'', ''systemPermissions''),
      (''apexClass'', ''apexClasses''),
      (''visualforcePage'', ''visualforcePages''),
      (''lightningPage'', ''lightningPages''),
      (''recordType'', ''recordTypes''),
      (''tabVisibility'', ''tabVisibilities''),
      (''appVisibility'', ''appVisibilities'')]"

text \<open>The number of items of a category that are not \<open>Unchanged\<close>.\<close>

definition changedIn :: "string \<Rightarrow> DiffItem list \<Rightarrow> nat" where
  "changedIn cat diffs = length (filter (\<lambda>d. category d = cat \<and> diffType d \<noteq> Unchanged) diffs)"

text \<open>
  The invariant of the summary: it has the nine counters, and each counter is the number of
  items of its category pushed so far that are not \<open>Unchanged\<close>.
\<close>

definition summaryInv :: "DiffItem list \<times> nat Record \<Rightarrow> bool" where
  "summaryInv st \<longleftrightarrow>
     map fst (snd st) = map snd categoryCounters
     \<and> (\<forall>(c, k) \<in> set categoryCounters. map_of (snd st) k = Some (changedIn c (fst st)))"

section \<open>Sample inputs\<close>

definition profileWith :: "string \<Rightarrow> ObjectAccess Record \<Rightarrow> NormalizedProfile" where
  "profileWith pid objs =
     \<lparr>profileId = pid, profileName = pid, objects = objs, systemPermissions = [],
      apexClasses = [], visualforcePages = [], lightningPages = [], recordTypes = [],
      tabVisibilities = [], appVisibilities = [], userPermissions = []\<rparr>"

definition accountAccess :: "bool \<Rightarrow> bool \<Rightarrow> ObjectAccess" where
  "accountAccess r d =
     \<lparr>permissions = \<lparr>read = r, create = False, edit = False, delete = d,
                      viewAll = False, modifyAll = False\<rparr>,
      fieldMap = []\<rparr>"

text \<open>Scenario A: two profiles, \<^verbatim>\<open>Account.delete\<close> is false in P1 and true in P2.\<close>

definition scenarioA :: "NormalizedProfile list" where
  "scenarioA =
     [profileWith ''P1'' [(''Account'', accountAccess True False)],
      profileWith ''P2'' [(''Account'', accountAccess True True)]]"

text \<open>Scenario B: three profiles, \<^verbatim>\<open>Account.read\<close> is true, true and false.\<close>

definition scenarioB :: "NormalizedProfile list" where
  "scenarioB =
     [profileWith ''P1'' [(''Account'', accountAccess True False)],
      profileWith ''P2'' [(''Account'', accountAccess True False)],
      profileWith ''P3'' [(''Account'', accountAccess False False)]]"

text \<open>Two profiles that carry the same identifier and differ in \<^verbatim>\<open>Account.read\<close>.\<close>

definition sameIdProfiles :: "NormalizedProfile list" where
  "sameIdProfiles =
     [profileWith ''P1'' [(''Account'', accountAccess True False)],
      profileWith ''P1'' [(''Account'', accountAccess False False)]]"

text \<open>Four profiles, \<^verbatim>\<open>Account.read\<close> is true in two of them and false in the other two.\<close>

definition scenarioSplit :: "NormalizedProfile list" where
  "scenarioSplit =
     [profileWith ''P1'' [(''Account'', accountAccess True False)],
      profileWith ''P2'' [(''Account'', accountAccess True False)],
      profileWith ''P3'' [(''Account'', accountAccess False False)],
      profileWith ''P4'' [(''Account'', accountAccess False False)]]"

definition sampleNow :: string where
  "sampleNow = ''2025-01-01T00:00:00.000Z''"

definition laterNow :: string where
  "laterNow = ''2025-06-30T12:00:00.000Z''"

text \<open>Bundles for the profile builder.\<close>

definition sampleProfile :: SalesforceProfile where
  "sampleProfile = \<lparr>prof_Id = ''P1'', prof_Name = ''Admin'', prof_UserLicenseId = ''L1''\<rparr>"

definition fieldRow :: "string \<Rightarrow> string \<Rightarrow> bool \<Rightarrow> bool \<Rightarrow> SalesforceFieldPermission" where
  "fieldRow obj fld r e =
     \<lparr>f_Id = ''01k'', f_ParentId = ''0PS1'', f_SobjectType = obj, f_Field = fld,
      f_PermissionsRead = r, f_PermissionsEdit = e\<rparr>"

text \<open>One field-permission row for an object without object-permission row.\<close>

definition bundleOneField :: ProfileDataBundle where
  "bundleOneField =
     emptyBundle\<lparr>b_fieldPermissions := [fieldRow ''Account'' ''Account.Revenue'' True False]\<rparr>"

text \<open>Two field-permission rows for the same field, with different values.\<close>

definition bundleTwoRows :: ProfileDataBundle where
  "bundleTwoRows =
     emptyBundle\<lparr>b_fieldPermissions :=
       [fieldRow ''Account'' ''Account.Revenue'' True True,
        fieldRow ''Account'' ''Account.Revenue'' True False]\<rparr>"

text \<open>A field-permission row whose \<^verbatim>\<open>Field\<close> ends in a dot.\<close>

definition bundleTrailingDot :: ProfileDataBundle where
  "bundleTrailingDot =
     emptyBundle\<lparr>b_fieldPermissions := [fieldRow ''Account'' ''Account.'' True False]\<rparr>"

text \<open>The class name \<^verbatim>\<open>Utils\<close> resolved twice, and names out of order.\<close>

definition bundleDuplicateClass :: ProfileDataBundle where
  "bundleDuplicateClass =
     emptyBundle\<lparr>b_apexClasses := [''Utils'', ''Helper'', ''Utils''],
                  b_recordTypes := [''Partner'', ''Customer'']\<rparr>"

text \<open>
  Scenario E: three requested profiles that all exist; the third one has no owned
  permission set.
\<close>

definition threeProfileIds :: "string list" where
  "threeProfileIds = [''00e00000000000A'', ''00e00000000000B'', ''00e00000000000C'']"

definition scenarioE :: SfService where
  "scenarioE =
     \<lparr>getAllProfiles =
        Inr [\<lparr>prof_Id = ''00e00000000000A'', prof_Name = ''Admin'', prof_UserLicenseId = ''100''\<rparr>,
             \<lparr>prof_Id = ''00e00000000000B'', prof_Name = ''Sales'', prof_UserLicenseId = ''100''\<rparr>,
             \<lparr>prof_Id = ''00e00000000000C'', prof_Name = ''Guest'', prof_UserLicenseId = ''100''\<rparr>],
      getProfilePermissionSetIds =
        (\<lambda>_. Inr [(''00e00000000000A'', ''0PS00000000000A''),
                   (''00e00000000000B'', ''0PS00000000000B'')]),
      getObjectPermissions = (\<lambda>_. Inr []),
      getFieldPermissions = (\<lambda>_. Inr []),
      getPermissionSetWithSystemPerms = (\<lambda>_. Inr []),
      getSetupEntityAccess = (\<lambda>_. Inr []),
      getApexClassNames = (\<lambda>_. Inr Map.empty),
      getApexPageNames = (\<lambda>_. Inr Map.empty),
      getRecordTypes = Inr Map.empty,
      getCustomTabs = Inr Map.empty,
      getCustomApps = Inr Map.empty\<rparr>"

section \<open>Basic facts about folds, records and sets\<close>

lemma fold_invariant:
  assumes "I s" and "\<And>x s. x \<in> set xs \<Longrightarrow> I s \<Longrightarrow> I (f x s)"
  shows "I (fold f xs s)"
  using assms by (induction xs arbitrary: s) auto

lemma fold_establish:
  assumes "x \<in> set xs" and "\<And>s. Q (f x s)" and "\<And>y s. Q s \<Longrightarrow> Q (f y s)"
  shows "Q (fold f xs s)"
proof -
  from assms(1) obtain as bs where xs: "xs = as @ x # bs"
    by (auto simp: in_set_conv_decomp)
  have "Q (f x (fold f as s))" by (rule assms(2))
  then have "Q (fold f bs (f x (fold f as s)))"
    by (rule fold_invariant) (rule assms(3))
  then show ?thesis by (simp add: xs)
qed

lemma update_fresh: "k \<notin> fst ` set al \<Longrightarrow> AList.update k v al = al @ [(k, v)]"
  by (induction al) auto

lemma valuesOf_fold_distinct:
  assumes "distinct (map profileId ps)" and "set (map profileId ps) \<inter> fst ` set acc = {}"
  shows "fold (\<lambda>p values. AList.update (profileId p) (f p) values) ps acc
         = acc @ map (\<lambda>p. (profileId p, f p)) ps"
  using assms
proof (induction ps arbitrary: acc)
  case Nil
  then show ?case by simp
next
  case (Cons p ps)
  have fresh: "profileId p \<notin> fst ` set acc" using Cons.prems(2) by auto
  have step: "AList.update (profileId p) (f p) acc = acc @ [(profileId p, f p)]"
    using fresh by (rule update_fresh)
  have disj: "set (map profileId ps) \<inter> fst ` set (acc @ [(profileId p, f p)]) = {}"
    using Cons.prems by auto
  have "distinct (map profileId ps)" using Cons.prems(1) by simp
  from Cons.IH [OF this disj] show ?case by (simp add: step)
qed

lemma valuesOf_distinct:
  "distinct (map profileId ps) \<Longrightarrow> valuesOf f ps = map (\<lambda>p. (profileId p, f p)) ps"
  unfolding valuesOf_def using valuesOf_fold_distinct [of ps "[]" f] by simp

lemma remdups_bool_length:
  "length (remdups (bs :: bool list)) =
     (if True \<in> set bs then 1 else 0) + (if False \<in> set bs then 1 else 0)"
proof (induction bs)
  case Nil
  then show ?case by simp
next
  case (Cons b bs)
  then show ?case by (cases b) auto
qed

lemma count_zero_iff:
  "length (filter (\<lambda>v. v = c) (bs :: bool list)) = 0 \<longleftrightarrow> c \<notin> set bs"
  by (induction bs) auto

lemma remdups_bool_one:
  "length (remdups (bs :: bool list)) = 1 \<longleftrightarrow>
     bs \<noteq> [] \<and> (length (filter (\<lambda>v. v = True) bs) = 0 \<or> length (filter (\<lambda>v. v = False) bs) = 0)"
proof (cases bs)
  case Nil
  then show ?thesis by simp
next
  case (Cons b bs')
  have "b \<in> set bs" using Cons by simp
  then have "True \<in> set bs \<or> False \<in> set bs" by (cases b) auto
  then show ?thesis
    unfolding remdups_bool_length count_zero_iff using Cons by auto
qed

lemma determineDiffType_rule:
  "determineDiffType values =
     (let t = length (filter (\<lambda>v. v = True) (map snd values));
          fl = length (filter (\<lambda>v. v = False) (map snd values))
      in if values \<noteq> [] \<and> (t = 0 \<or> fl = 0) then Unchanged
         else if t = 1 \<and> fl > 0 then Added
         else if fl = 1 \<and> t > 0 then Removed
         else Changed)"
  unfolding determineDiffType_def Let_def remdups_bool_one by simp

lemma count_true_map: "length (filter (\<lambda>v. v = True) (map f ps)) = length (filter f ps)"
  by (induction ps) auto

lemma count_false_map: "length (filter (\<lambda>v. v = False) (map f ps)) = length (filter (\<lambda>p. \<not> f p) ps)"
  by (induction ps) auto

lemma determineDiffType_profiles:
  assumes "distinct (map profileId ps)"
  shows "determineDiffType (valuesOf f ps) =
     (let t = length (filter f ps); fl = length (filter (\<lambda>p. \<not> f p) ps)
      in if ps \<noteq> [] \<and> (t = 0 \<or> fl = 0) then Unchanged
         else if t = 1 \<and> fl > 0 then Added
         else if fl = 1 \<and> t > 0 then Removed
         else Changed)"
proof -
  have m: "map snd (map (\<lambda>p. (profileId p, f p)) ps) = map f ps" by (simp add: comp_def)
  show ?thesis
    unfolding determineDiffType_rule valuesOf_distinct [OF assms] m count_true_map count_false_map
    by simp
qed

lemma objectPermissionStep_emit:
  "objectPermissionStep ps b objName permType st =
     emit ''objectPermissions'' b (objItem ps objName permType) st"
  by (cases st) (simp add: objectPermissionStep_def emit_def objItem_def Let_def)

lemma fieldPermissionStep_emit:
  "fieldPermissionStep ps b objName fldName permType st =
     emit ''fieldPermissions'' b (fieldItem ps objName fldName permType) st"
  by (cases st) (simp add: fieldPermissionStep_def emit_def fieldItem_def Let_def)

lemma systemPermissionStep_emit:
  "systemPermissionStep ps b permName st = emit ''systemPermissions'' b (sysItem ps permName) st"
  by (cases st) (simp add: systemPermissionStep_def emit_def sysItem_def Let_def)

lemma arrayPropertyStep_emit:
  "summaryKeyOf cat \<in> set (map fst (snd st)) \<Longrightarrow>
   arrayPropertyStep ps propertyName cat b item st =
     emit (summaryKeyOf cat) b (arrayItem ps propertyName cat item) st"
  by (cases st) (simp add: arrayPropertyStep_def emit_def arrayItem_def Let_def)

lemma arrayPropertyStep_fst:
  "fst (arrayPropertyStep ps propertyName cat b item st) =
     fst (emit k b (arrayItem ps propertyName cat item) st)"
  by (cases st) (simp add: arrayPropertyStep_def emit_def arrayItem_def Let_def)

lemma tabVisibilityStep_emit:
  "tabVisibilityStep ps b tabName st = emit ''tabVisibilities'' b (tabItem ps tabName) st"
  by (cases st) (simp add: tabVisibilityStep_def emit_def tabItem_def Let_def)

lemma appVisibilityStep_emit:
  "appVisibilityStep ps b appName st =
     emit ''appVisibilities'' b (appDefaultItem ps appName)
       (emit ''appVisibilities'' b (appVisibleItem ps appName) st)"
  by (cases st)
    (simp add: appVisibilityStep_def emit_def appVisibleItem_def appDefaultItem_def Let_def)

subsection \<open>Properties of all emitted items\<close>

lemma emit_all:
  assumes "P item" and "\<forall>d \<in> set (fst st). P d"
  shows "\<forall>d \<in> set (fst (emit k b item st)). P d"
  using assms by (simp add: emit_def)

lemma emit_mono: "d \<in> set (fst st) \<Longrightarrow> d \<in> set (fst (emit k b item st))"
  by (simp add: emit_def)

lemma emit_member:
  "diffType item \<noteq> Unchanged \<or> b \<Longrightarrow> item \<in> set (fst (emit k b item st))"
  by (auto simp: emit_def)

lemma set_fold_set_add: "set (fold set_add xs acc) = set xs \<union> set acc"
  by (induction xs arbitrary: acc) (auto simp: set_add_def)

lemma set_fold_keys:
  "set (fold (\<lambda>p acc. fold set_add (g p) acc) ps acc0) = (\<Union>p \<in> set ps. set (g p)) \<union> set acc0"
  by (induction ps arbitrary: acc0) (auto simp: set_fold_set_add)

lemma set_allObjectNames: "set (allObjectNames ps) = (\<Union>p \<in> set ps. fst ` set (objects p))"
  unfolding allObjectNames_def set_fold_keys by simp

lemma compareObjectPermissions_all:
  assumes "\<And>n t. n \<in> set (allObjectNames ps) \<Longrightarrow> t \<in> set permissionTypes \<Longrightarrow> P (objItem ps n t)"
    and "\<forall>d \<in> set (fst st). P d"
  shows "\<forall>d \<in> set (fst (compareObjectPermissions ps b st)). P d"
  unfolding compareObjectPermissions_def
proof (rule fold_invariant [where I = "\<lambda>s. \<forall>d \<in> set (fst s). P d"])
  show "\<forall>d \<in> set (fst st). P d" by fact
next
  fix oname :: string and s :: "DiffItem list \<times> nat Record"
  assume o: "oname \<in> set (allObjectNames ps)" and s: "\<forall>d \<in> set (fst s). P d"
  show "\<forall>d \<in> set (fst (fold (objectPermissionStep ps b oname) permissionTypes s)). P d"
  proof (rule fold_invariant [where I = "\<lambda>s. \<forall>d \<in> set (fst s). P d"])
    show "\<forall>d \<in> set (fst s). P d" by fact
  next
    fix t :: string and s' :: "DiffItem list \<times> nat Record"
    assume "t \<in> set permissionTypes" and "\<forall>d \<in> set (fst s'). P d"
    then show "\<forall>d \<in> set (fst (objectPermissionStep ps b oname t s')). P d"
      unfolding objectPermissionStep_emit using assms(1) [OF o] by (intro emit_all) auto
  qed
qed

lemma compareFieldPermissions_all:
  assumes "\<And>n f t. t \<in> set fieldPermissionTypes \<Longrightarrow> P (fieldItem ps n f t)"
    and "\<forall>d \<in> set (fst st). P d"
  shows "\<forall>d \<in> set (fst (compareFieldPermissions ps b st)). P d"
  unfolding compareFieldPermissions_def
proof (rule fold_invariant [where I = "\<lambda>s. \<forall>d \<in> set (fst s). P d"])
  show "\<forall>d \<in> set (fst st). P d" by fact
next
  fix entry :: "string \<times> string list" and s :: "DiffItem list \<times> nat Record"
  assume s: "\<forall>d \<in> set (fst s). P d"
  obtain oname fnames where entry: "entry = (oname, fnames)" by (cases entry)
  have "\<forall>d \<in> set (fst (fold (\<lambda>f. fold (fieldPermissionStep ps b oname f) fieldPermissionTypes)
                                 fnames s)). P d"
  proof (rule fold_invariant [where I = "\<lambda>s. \<forall>d \<in> set (fst s). P d"])
    show "\<forall>d \<in> set (fst s). P d" by fact
  next
    fix f :: string and s1 :: "DiffItem list \<times> nat Record"
    assume s1: "\<forall>d \<in> set (fst s1). P d"
    show "\<forall>d \<in> set (fst (fold (fieldPermissionStep ps b oname f) fieldPermissionTypes s1)). P d"
    proof (rule fold_invariant [where I = "\<lambda>s. \<forall>d \<in> set (fst s). P d"])
      show "\<forall>d \<in> set (fst s1). P d" by fact
    next
      fix t :: string and s2 :: "DiffItem list \<times> nat Record"
      assume "t \<in> set fieldPermissionTypes" and "\<forall>d \<in> set (fst s2). P d"
      then show "\<forall>d \<in> set (fst (fieldPermissionStep ps b oname f t s2)). P d"
        unfolding fieldPermissionStep_emit using assms(1) by (intro emit_all) auto
    qed
  qed
  then show "\<forall>d \<in> set (fst ((case entry of (objName, fieldNames) \<Rightarrow>
               fold (\<lambda>fldName. fold (fieldPermissionStep ps b objName fldName) fieldPermissionTypes)
                 fieldNames) s)). P d"
    by (simp add: entry)
qed

lemma compareSystemPermissions_all:
  assumes "\<And>n. P (sysItem ps n)" and "\<forall>d \<in> set (fst st). P d"
  shows "\<forall>d \<in> set (fst (compareSystemPermissions ps b st)). P d"
  unfolding compareSystemPermissions_def
proof (rule fold_invariant [where I = "\<lambda>s. \<forall>d \<in> set (fst s). P d"])
  show "\<forall>d \<in> set (fst st). P d" by fact
next
  fix n :: string and s :: "DiffItem list \<times> nat Record"
  assume "\<forall>d \<in> set (fst s). P d"
  then show "\<forall>d \<in> set (fst (systemPermissionStep ps b n s)). P d"
    unfolding systemPermissionStep_emit using assms(1) by (intro emit_all) auto
qed

lemma compareArrayProperty_all:
  assumes "\<And>i. P (arrayItem ps prop cat i)" and "\<forall>d \<in> set (fst st). P d"
  shows "\<forall>d \<in> set (fst (compareArrayProperty ps prop cat b st)). P d"
  unfolding compareArrayProperty_def
proof (rule fold_invariant [where I = "\<lambda>s. \<forall>d \<in> set (fst s). P d"])
  show "\<forall>d \<in> set (fst st). P d" by fact
next
  fix i :: string and s :: "DiffItem list \<times> nat Record"
  assume "\<forall>d \<in> set (fst s). P d"
  then show "\<forall>d \<in> set (fst (arrayPropertyStep ps prop cat b i s)). P d"
    unfolding arrayPropertyStep_fst [where k = "[]"] using assms(1) by (intro emit_all) auto
qed

lemma compareTabVisibilities_all:
  assumes "\<And>n. P (tabItem ps n)" and "\<forall>d \<in> set (fst st). P d"
  shows "\<forall>d \<in> set (fst (compareTabVisibilities ps b st)). P d"
  unfolding compareTabVisibilities_def
proof (rule fold_invariant [where I = "\<lambda>s. \<forall>d \<in> set (fst s). P d"])
  show "\<forall>d \<in> set (fst st). P d" by fact
next
  fix n :: string and s :: "DiffItem list \<times> nat Record"
  assume "\<forall>d \<in> set (fst s). P d"
  then show "\<forall>d \<in> set (fst (tabVisibilityStep ps b n s)). P d"
    unfolding tabVisibilityStep_emit using assms(1) by (intro emit_all) auto
qed

lemma compareAppVisibilities_all:
  assumes "\<And>n. P (appVisibleItem ps n)" and "\<And>n. P (appDefaultItem ps n)"
    and "\<forall>d \<in> set (fst st). P d"
  shows "\<forall>d \<in> set (fst (compareAppVisibilities ps b st)). P d"
  unfolding compareAppVisibilities_def
proof (rule fold_invariant [where I = "\<lambda>s. \<forall>d \<in> set (fst s). P d"])
  show "\<forall>d \<in> set (fst st). P d" by fact
next
  fix n :: string and s :: "DiffItem list \<times> nat Record"
  assume "\<forall>d \<in> set (fst s). P d"
  then show "\<forall>d \<in> set (fst (appVisibilityStep ps b n s)). P d"
    unfolding appVisibilityStep_emit using assms(1,2) by (intro emit_all) auto
qed

lemma comparePasses_all:
  assumes "\<And>n t. n \<in> set (allObjectNames ps) \<Longrightarrow> t \<in> set permissionTypes \<Longrightarrow> P (objItem ps n t)"
    and "\<And>n f t. t \<in> set fieldPermissionTypes \<Longrightarrow> P (fieldItem ps n f t)"
    and "\<And>n. P (sysItem ps n)"
    and "\<And>i. P (arrayItem ps ''apexClasses'' ''apexClass'' i)"
    and "\<And>i. P (arrayItem ps ''visualforcePages'' ''visualforcePage'' i)"
    and "\<And>i. P (arrayItem ps ''lightningPages'' ''lightningPage'' i)"
    and "\<And>i. P (arrayItem ps ''recordTypes'' ''recordType'' i)"
    and "\<And>n. P (tabItem ps n)"
    and "\<And>n. P (appVisibleItem ps n)"
    and "\<And>n. P (appDefaultItem ps n)"
  shows "\<forall>d \<in> set (fst (comparePasses ps b)). P d"
  unfolding comparePasses_def Let_def
  by (intro compareAppVisibilities_all compareTabVisibilities_all compareArrayProperty_all
        compareSystemPermissions_all compareFieldPermissions_all compareObjectPermissions_all)
     (auto intro: assms)

subsection \<open>Items stay, and the item of an evaluated key is pushed\<close>

lemma fold_mono_items:
  assumes "\<And>x s. d \<in> set (fst s) \<Longrightarrow> d \<in> set (fst (f x s))" and "d \<in> set (fst st)"
  shows "d \<in> set (fst (fold f xs st))"
  using assms(2)
  by (rule fold_invariant [where I = "\<lambda>s. d \<in> set (fst s)"]) (rule assms(1))

lemma objectPermissionStep_mono:
  "d \<in> set (fst st) \<Longrightarrow> d \<in> set (fst (objectPermissionStep ps b n t st))"
  unfolding objectPermissionStep_emit by (rule emit_mono)

lemma compareObjectPermissions_member:
  assumes "n \<in> set (allObjectNames ps)" and "t \<in> set permissionTypes"
    and "diffType (objItem ps n t) \<noteq> Unchanged \<or> b"
  shows "objItem ps n t \<in> set (fst (compareObjectPermissions ps b st))"
  unfolding compareObjectPermissions_def
proof (rule fold_establish [where Q = "\<lambda>s. objItem ps n t \<in> set (fst s)", OF assms(1)])
  fix s :: "DiffItem list \<times> nat Record"
  show "objItem ps n t \<in> set (fst (fold (objectPermissionStep ps b n) permissionTypes s))"
  proof (rule fold_establish [where Q = "\<lambda>s. objItem ps n t \<in> set (fst s)", OF assms(2)])
    fix s' :: "DiffItem list \<times> nat Record"
    show "objItem ps n t \<in> set (fst (objectPermissionStep ps b n t s'))"
      unfolding objectPermissionStep_emit using assms(3) by (rule emit_member)
  next
    fix y :: string and s' :: "DiffItem list \<times> nat Record"
    assume "objItem ps n t \<in> set (fst s')"
    then show "objItem ps n t \<in> set (fst (objectPermissionStep ps b n y s'))"
      by (rule objectPermissionStep_mono)
  qed
next
  fix y :: string and s :: "DiffItem list \<times> nat Record"
  assume "objItem ps n t \<in> set (fst s)"
  then show "objItem ps n t \<in> set (fst (fold (objectPermissionStep ps b y) permissionTypes s))"
    by (rule fold_mono_items [rotated]) (rule objectPermissionStep_mono)
qed

lemma compareFieldPermissions_mono:
  assumes "d \<in> set (fst st)"
  shows "d \<in> set (fst (compareFieldPermissions ps b st))"
  unfolding compareFieldPermissions_def
proof -
  show "d \<in> set (fst (fold (\<lambda>(objName, fieldNames).
           fold (\<lambda>fldName. fold (fieldPermissionStep ps b objName fldName) fieldPermissionTypes)
             fieldNames) (allFieldNames ps) st))"
  proof (rule fold_mono_items [OF _ assms])
    fix x :: "string \<times> string list" and s :: "DiffItem list \<times> nat Record"
    assume d: "d \<in> set (fst s)"
    obtain n fs where x: "x = (n, fs)" by (cases x)
    have "d \<in> set (fst (fold (\<lambda>f. fold (fieldPermissionStep ps b n f) fieldPermissionTypes) fs s))"
    proof (rule fold_mono_items [OF _ d])
      fix f :: string and s1 :: "DiffItem list \<times> nat Record"
      assume "d \<in> set (fst s1)"
      then show "d \<in> set (fst (fold (fieldPermissionStep ps b n f) fieldPermissionTypes s1))"
        by (rule fold_mono_items [rotated]) (simp add: fieldPermissionStep_emit emit_mono)
    qed
    then show "d \<in> set (fst ((case x of (objName, fieldNames) \<Rightarrow>
           fold (\<lambda>fldName. fold (fieldPermissionStep ps b objName fldName) fieldPermissionTypes)
             fieldNames) s))"
      by (simp add: x)
  qed
qed

lemma compareSystemPermissions_mono:
  "d \<in> set (fst st) \<Longrightarrow> d \<in> set (fst (compareSystemPermissions ps b st))"
  unfolding compareSystemPermissions_def
  by (rule fold_mono_items [rotated]) (simp_all add: systemPermissionStep_emit emit_mono)

lemma compareArrayProperty_mono:
  "d \<in> set (fst st) \<Longrightarrow> d \<in> set (fst (compareArrayProperty ps prop cat b st))"
  unfolding compareArrayProperty_def
  by (rule fold_mono_items [rotated]) (simp_all add: arrayPropertyStep_fst [where k = "[]"] emit_mono)

lemma compareTabVisibilities_mono:
  "d \<in> set (fst st) \<Longrightarrow> d \<in> set (fst (compareTabVisibilities ps b st))"
  unfolding compareTabVisibilities_def
  by (rule fold_mono_items [rotated]) (simp_all add: tabVisibilityStep_emit emit_mono)

lemma compareAppVisibilities_mono:
  "d \<in> set (fst st) \<Longrightarrow> d \<in> set (fst (compareAppVisibilities ps b st))"
  unfolding compareAppVisibilities_def
  by (rule fold_mono_items [rotated]) (simp_all add: appVisibilityStep_emit emit_mono)

lemma comparePasses_member:
  assumes "n \<in> set (allObjectNames ps)" and "t \<in> set permissionTypes"
    and "diffType (objItem ps n t) \<noteq> Unchanged \<or> b"
  shows "objItem ps n t \<in> set (fst (comparePasses ps b))"
  unfolding comparePasses_def Let_def
  by (intro compareAppVisibilities_mono compareTabVisibilities_mono compareArrayProperty_mono
        compareSystemPermissions_mono compareFieldPermissions_mono
        compareObjectPermissions_member assms)

lemma path_delete_obj:
  assumes "''objects.'' @ n @ ''.permissions.'' @ t = ''objects.Account.permissions.delete''"
  shows "n = ''Account'' \<and> t = ''delete''"
  using assms by (simp add: append_eq_Cons_conv) 

lemma path_delete_field:
  "''objects.'' @ n @ ''.fields.'' @ f @ ''.'' @ t \<noteq> ''objects.Account.permissions.delete''"
  by (simp add: append_eq_Cons_conv)

lemma comparePasses_path_delete:
  "\<forall>d \<in> set (fst (comparePasses ps b)).
      path d = ''objects.Account.permissions.delete'' \<longrightarrow> d = objItem ps ''Account'' ''delete''"
proof (rule comparePasses_all)
  fix n t
  show "path (objItem ps n t) = ''objects.Account.permissions.delete'' \<longrightarrow>
        objItem ps n t = objItem ps ''Account'' ''delete''"
    using path_delete_obj [of n t] by (auto simp: objItem_def)
next
  fix n f t
  show "path (fieldItem ps n f t) = ''objects.Account.permissions.delete'' \<longrightarrow>
        fieldItem ps n f t = objItem ps ''Account'' ''delete''"
    using path_delete_field [of n f t] by (simp add: fieldItem_def)
qed (simp_all add: sysItem_def arrayItem_def tabItem_def appVisibleItem_def appDefaultItem_def)


lemma objPermValue_in_names:
  assumes "objPermValue n t p" and "p \<in> set ps"
  shows "n \<in> set (allObjectNames ps)"
proof -
  from assms(1) obtain oa where "map_of (objects p) n = Some oa"
    by (auto simp: objPermValue_def split: option.splits)
  then have "n \<in> fst ` set (objects p)" by (metis map_of_eq_None_iff option.distinct(1))
  then show ?thesis unfolding set_allObjectNames using assms(2) by blast
qed

lemma differences_compare: "differences (compare now ps b) = fst (comparePasses ps b)"
  by (simp add: compare_def split: prod.splits)

lemma summary_compare: "summary (compare now ps b) = snd (comparePasses ps b)"
  by (simp add: compare_def split: prod.splits)

lemma totalDifferences_compare:
  "totalDifferences (compare now ps b) =
     length (filter (\<lambda>d. diffType d \<noteq> Unchanged) (fst (comparePasses ps b)))"
  by (simp add: compare_def split: prod.splits)

section \<open>Scenarios A and B\<close>

text \<open>
  C3 (as amended). For a comparison of exactly two profiles with distinct identifiers where
  P1 has \<^verbatim>\<open>Account.delete = false\<close> and P2 has \<^verbatim>\<open>Account.delete = true\<close>, \<open>compare\<close>
  emits a \<^verbatim>\<open>DiffItem\<close> with path \<^verbatim>\<open>objects.Account.permissions.delete\<close>, diff type
  \<open>Added\<close> and values \<^verbatim>\<open>{P1: false, P2: true}\<close>, and every emitted item with that path
  has that diff type and those values.
\<close>

theorem C3_two_profiles_delete_added:
  assumes "profileId p1 \<noteq> profileId p2"
    and "\<not> objPermValue ''Account'' ''delete'' p1"
    and "objPermValue ''Account'' ''delete'' p2"
  shows "\<lparr>path = ''objects.Account.permissions.delete'',
          category = ''objectPermission'', objectName = Some ''Account'', fieldName = None,
          permissionName = Some ''delete'',
          vals = [(profileId p1, JBool False), (profileId p2, JBool True)],
          diffType = Added\<rparr> \<in> set (differences (compare now [p1, p2] b))
       \<and> (\<forall>d \<in> set (differences (compare now [p1, p2] b)).
             path d = ''objects.Account.permissions.delete'' \<longrightarrow>
             diffType d = Added
             \<and> vals d = [(profileId p1, JBool False), (profileId p2, JBool True)])"
proof -
  let ?ps = "[p1, p2]"
  let ?item = "objItem ?ps ''Account'' ''delete''"
  have dist: "distinct (map profileId ?ps)" using assms(1) by simp
  have v: "valuesOf (objPermValue ''Account'' ''delete'') ?ps
             = [(profileId p1, False), (profileId p2, True)]"
    unfolding valuesOf_distinct [OF dist] using assms(2,3) by simp
  have dt: "determineDiffType [(profileId p1, False), (profileId p2, True)] = Added"
    by (simp add: determineDiffType_def Let_def)
  have item: "?item = \<lparr>path = ''objects.Account.permissions.delete'',
          category = ''objectPermission'', objectName = Some ''Account'', fieldName = None,
          permissionName = Some ''delete'',
          vals = [(profileId p1, JBool False), (profileId p2, JBool True)],
          diffType = Added\<rparr>"
    unfolding objItem_def v dt by (simp add: boolVals_def)
  have name: "''Account'' \<in> set (allObjectNames ?ps)"
    by (rule objPermValue_in_names [OF assms(3)]) simp
  have t: "''delete'' \<in> set permissionTypes" by (simp add: permissionTypes_def)
  have ne: "diffType ?item \<noteq> Unchanged \<or> b" unfolding item by simp
  have mem: "?item \<in> set (fst (comparePasses ?ps b))"
    by (rule comparePasses_member [OF name t ne])
  have uniq: "\<forall>d \<in> set (fst (comparePasses ?ps b)).
      path d = ''objects.Account.permissions.delete'' \<longrightarrow> d = ?item"
    by (rule comparePasses_path_delete)
  have "\<forall>d \<in> set (fst (comparePasses ?ps b)).
      path d = ''objects.Account.permissions.delete'' \<longrightarrow>
        diffType d = Added \<and> vals d = [(profileId p1, JBool False), (profileId p2, JBool True)]"
  proof (intro ballI impI)
    fix d
    assume "d \<in> set (fst (comparePasses ?ps b))"
      and "path d = ''objects.Account.permissions.delete''"
    with uniq have "d = ?item" by blast
    then show "diffType d = Added \<and> vals d = [(profileId p1, JBool False), (profileId p2, JBool True)]"
      by (simp add: item)
  qed
  with mem show ?thesis
    unfolding differences_compare item by (rule conjI)
qed


text \<open>Scenario A satisfies the hypotheses of C3, and the item is emitted.\<close>

theorem C3_two_profiles_delete_added_witness:
  "\<lparr>path = ''objects.Account.permissions.delete'',
     category = ''objectPermission'', objectName = Some ''Account'', fieldName = None,
     permissionName = Some ''delete'',
     vals = [(''P1'', JBool False), (''P2'', JBool True)],
     diffType = Added\<rparr> \<in> set (differences (compare sampleNow scenarioA False))"
proof -
  let ?p1 = "profileWith ''P1'' [(''Account'', accountAccess True False)]"
  let ?p2 = "profileWith ''P2'' [(''Account'', accountAccess True True)]"
  have ids: "profileId ?p1 = ''P1''" "profileId ?p2 = ''P2''" by (simp_all add: profileWith_def)
  have h1: "profileId ?p1 \<noteq> profileId ?p2" unfolding ids by simp
  have h2: "\<not> objPermValue ''Account'' ''delete'' ?p1" by code_simp
  have h3: "objPermValue ''Account'' ''delete'' ?p2" by code_simp
  from C3_two_profiles_delete_added [OF h1 h2 h3, of sampleNow False]
  show ?thesis unfolding ids scenarioA_def by (rule conjunct1)
qed

text \<open>
  C3 as stated fails: in scenario A the only item that \<open>compare\<close> emits has the path
  \<^verbatim>\<open>objects.Account.permissions.delete\<close> and the diff type \<open>Added\<close>, not \<open>Removed\<close>.
\<close>

theorem C3_counterexample:
  "map (objPermValue ''Account'' ''delete'') scenarioA = [False, True]
   \<and> differences (compare sampleNow scenarioA False) =
       [\<lparr>path = ''objects.Account.permissions.delete'',
         category = ''objectPermission'', objectName = Some ''Account'', fieldName = None,
         permissionName = Some ''delete'',
         vals = [(''P1'', JBool False), (''P2'', JBool True)],
         diffType = Added\<rparr>]"
  by code_simp

lemma path_read_obj:
  assumes "''objects.'' @ n @ ''.permissions.'' @ t = ''objects.Account.permissions.read''"
  shows "n = ''Account'' \<and> t = ''read''"
  using assms by (simp add: append_eq_Cons_conv)

lemma path_read_field:
  "''objects.'' @ n @ ''.fields.'' @ f @ ''.'' @ t \<noteq> ''objects.Account.permissions.read''"
  by (simp add: append_eq_Cons_conv)

lemma comparePasses_path_read:
  "\<forall>d \<in> set (fst (comparePasses ps b)).
      path d = ''objects.Account.permissions.read'' \<longrightarrow> d = objItem ps ''Account'' ''read''"
proof (rule comparePasses_all)
  fix n t
  show "path (objItem ps n t) = ''objects.Account.permissions.read'' \<longrightarrow>
        objItem ps n t = objItem ps ''Account'' ''read''"
    using path_read_obj [of n t] by (auto simp: objItem_def)
next
  fix n f t
  show "path (fieldItem ps n f t) = ''objects.Account.permissions.read'' \<longrightarrow>
        fieldItem ps n f t = objItem ps ''Account'' ''read''"
    using path_read_field [of n f t] by (simp add: fieldItem_def)
qed (simp_all add: sysItem_def arrayItem_def tabItem_def appVisibleItem_def appDefaultItem_def)

text \<open>
  C2 (as amended). For a comparison of exactly three profiles with distinct identifiers
  whose \<^verbatim>\<open>Account.read\<close> values are true, true and false, \<open>compare\<close> emits a
  \<^verbatim>\<open>DiffItem\<close> for path \<^verbatim>\<open>objects.Account.permissions.read\<close>, and the diff type of
  every emitted item with that path is \<open>Removed\<close>: exactly one value is false.
\<close>

theorem C2_three_profiles_read_removed:
  assumes "distinct [profileId p1, profileId p2, profileId p3]"
    and "objPermValue ''Account'' ''read'' p1"
    and "objPermValue ''Account'' ''read'' p2"
    and "\<not> objPermValue ''Account'' ''read'' p3"
  shows "\<lparr>path = ''objects.Account.permissions.read'',
          category = ''objectPermission'', objectName = Some ''Account'', fieldName = None,
          permissionName = Some ''read'',
          vals = [(profileId p1, JBool True), (profileId p2, JBool True),
                  (profileId p3, JBool False)],
          diffType = Removed\<rparr> \<in> set (differences (compare now [p1, p2, p3] b))
       \<and> (\<forall>d \<in> set (differences (compare now [p1, p2, p3] b)).
             path d = ''objects.Account.permissions.read'' \<longrightarrow> diffType d = Removed)"
proof -
  let ?ps = "[p1, p2, p3]"
  let ?item = "objItem ?ps ''Account'' ''read''"
  have dist: "distinct (map profileId ?ps)" using assms(1) by simp
  have v: "valuesOf (objPermValue ''Account'' ''read'') ?ps
             = [(profileId p1, True), (profileId p2, True), (profileId p3, False)]"
    unfolding valuesOf_distinct [OF dist] using assms(2,3,4) by simp
  have dt: "determineDiffType [(profileId p1, True), (profileId p2, True), (profileId p3, False)]
              = Removed"
    by (simp add: determineDiffType_def Let_def)
  have item: "?item = \<lparr>path = ''objects.Account.permissions.read'',
          category = ''objectPermission'', objectName = Some ''Account'', fieldName = None,
          permissionName = Some ''read'',
          vals = [(profileId p1, JBool True), (profileId p2, JBool True),
                  (profileId p3, JBool False)],
          diffType = Removed\<rparr>"
    unfolding objItem_def v dt by (simp add: boolVals_def)
  have name: "''Account'' \<in> set (allObjectNames ?ps)"
    by (rule objPermValue_in_names [OF assms(2)]) simp
  have t: "''read'' \<in> set permissionTypes" by (simp add: permissionTypes_def)
  have ne: "diffType ?item \<noteq> Unchanged \<or> b" unfolding item by simp
  have mem: "?item \<in> set (fst (comparePasses ?ps b))"
    by (rule comparePasses_member [OF name t ne])
  have uniq: "\<forall>d \<in> set (fst (comparePasses ?ps b)).
      path d = ''objects.Account.permissions.read'' \<longrightarrow> d = ?item"
    by (rule comparePasses_path_read)
  have "\<forall>d \<in> set (fst (comparePasses ?ps b)).
      path d = ''objects.Account.permissions.read'' \<longrightarrow> diffType d = Removed"
  proof (intro ballI impI)
    fix d
    assume "d \<in> set (fst (comparePasses ?ps b))"
      and "path d = ''objects.Account.permissions.read''"
    with uniq have "d = ?item" by blast
    then show "diffType d = Removed" by (simp add: item)
  qed
  with mem show ?thesis
    unfolding differences_compare item by (rule conjI)
qed

text \<open>Scenario B satisfies the hypotheses of C2, and the item is emitted.\<close>

theorem C2_three_profiles_read_removed_witness:
  "\<lparr>path = ''objects.Account.permissions.read'',
     category = ''objectPermission'', objectName = Some ''Account'', fieldName = None,
     permissionName = Some ''read'',
     vals = [(''P1'', JBool True), (''P2'', JBool True), (''P3'', JBool False)],
     diffType = Removed\<rparr> \<in> set (differences (compare sampleNow scenarioB False))"
proof -
  let ?p1 = "profileWith ''P1'' [(''Account'', accountAccess True False)]"
  let ?p2 = "profileWith ''P2'' [(''Account'', accountAccess True False)]"
  let ?p3 = "profileWith ''P3'' [(''Account'', accountAccess False False)]"
  have ids: "profileId ?p1 = ''P1''" "profileId ?p2 = ''P2''" "profileId ?p3 = ''P3''"
    by (simp_all add: profileWith_def)
  have h1: "distinct [profileId ?p1, profileId ?p2, profileId ?p3]" unfolding ids by simp
  have h2: "objPermValue ''Account'' ''read'' ?p1" by code_simp
  have h3: "objPermValue ''Account'' ''read'' ?p2" by code_simp
  have h4: "\<not> objPermValue ''Account'' ''read'' ?p3" by code_simp
  from C2_three_profiles_read_removed [OF h1 h2 h3 h4, of sampleNow False]
  show ?thesis unfolding ids scenarioB_def by (rule conjunct1)
qed

text \<open>
  C2 as stated fails: in scenario B the only item that \<open>compare\<close> emits has the path
  \<^verbatim>\<open>objects.Account.permissions.read\<close> and the diff type \<open>Removed\<close>, not \<open>Changed\<close>.
\<close>

theorem C2_counterexample:
  "map (objPermValue ''Account'' ''read'') scenarioB = [True, True, False]
   \<and> differences (compare sampleNow scenarioB False) =
       [\<lparr>path = ''objects.Account.permissions.read'',
         category = ''objectPermission'', objectName = Some ''Account'', fieldName = None,
         permissionName = Some ''read'',
         vals = [(''P1'', JBool True), (''P2'', JBool True), (''P3'', JBool False)],
         diffType = Removed\<rparr>]"
  by code_simp

section \<open>The summary counters\<close>

lemma map_fst_incr: "map fst (incr k s) = map fst s"
  unfolding incr_def by (induction s) auto

lemma map_of_incr:
  "map_of (incr k s) k' = (if k' = k then map_option Suc (map_of s k) else map_of s k')"
  unfolding incr_def by (induction s) auto

lemma changedIn_append:
  "changedIn c (ds @ [d]) =
     changedIn c ds + (if category d = c \<and> diffType d \<noteq> Unchanged then 1 else 0)"
  by (simp add: changedIn_def)

lemma categoryCounters_distinct:
  "distinct (map fst categoryCounters)" "distinct (map snd categoryCounters)"
  by (simp_all add: categoryCounters_def)

lemma categoryCounters_key_eq:
  assumes "(c, k) \<in> set categoryCounters" and "(c', k') \<in> set categoryCounters"
  shows "k' = k \<longleftrightarrow> c' = c"
proof
  assume "k' = k"
  have "inj_on snd (set categoryCounters)"
    using categoryCounters_distinct(2) by (simp add: distinct_map)
  from inj_onD [OF this, of "(c', k')" "(c, k)"] assms \<open>k' = k\<close>
  have "(c', k') = (c, k)" by simp
  then show "c' = c" by simp
next
  assume "c' = c"
  have "inj_on fst (set categoryCounters)"
    using categoryCounters_distinct(1) by (simp add: distinct_map)
  from inj_onD [OF this, of "(c', k')" "(c, k)"] assms \<open>c' = c\<close>
  have "(c', k') = (c, k)" by simp
  then show "k' = k" by simp
qed

lemma emit_summaryInv:
  assumes ck: "(category item, k) \<in> set categoryCounters" and inv: "summaryInv st"
  shows "summaryInv (emit k b item st)"
proof (cases "diffType item \<noteq> Unchanged")
  case True
  have keys: "map fst (incr k (snd st)) = map snd categoryCounters"
    using inv by (simp add: summaryInv_def map_fst_incr)
  have "map_of (incr k (snd st)) k' = Some (changedIn c' (fst st @ [item]))"
    if "(c', k') \<in> set categoryCounters" for c' k'
  proof -
    have old: "map_of (snd st) k' = Some (changedIn c' (fst st))"
      using inv that by (auto simp: summaryInv_def)
    have oldk: "map_of (snd st) k = Some (changedIn (category item) (fst st))"
      using inv ck by (auto simp: summaryInv_def)
    show ?thesis
    proof (cases "k' = k")
      case True
      then have "c' = category item" using categoryCounters_key_eq [OF ck that] by simp
      with True oldk \<open>diffType item \<noteq> Unchanged\<close> show ?thesis
        by (simp add: map_of_incr changedIn_append)
    next
      case False
      then have "c' \<noteq> category item" using categoryCounters_key_eq [OF ck that] by simp
      with False old show ?thesis
        by (auto simp: map_of_incr changedIn_append)
    qed
  qed
  with keys True show ?thesis by (auto simp: summaryInv_def emit_def)
next
  case False
  then have "changedIn c' (fst st @ [item]) = changedIn c' (fst st)" for c'
    by (simp add: changedIn_append)
  with inv False show ?thesis by (auto simp: summaryInv_def emit_def)
qed

lemma summaryInv_initial: "summaryInv ([], initialSummary)"
  by (simp add: summaryInv_def initialSummary_def categoryCounters_def changedIn_def)

lemma compareObjectPermissions_summaryInv:
  assumes "summaryInv st"
  shows "summaryInv (compareObjectPermissions ps b st)"
  unfolding compareObjectPermissions_def
proof (rule fold_invariant [where I = summaryInv, OF assms])
  fix n :: string and s :: "DiffItem list \<times> nat Record"
  assume "summaryInv s"
  then show "summaryInv (fold (objectPermissionStep ps b n) permissionTypes s)"
  proof (rule fold_invariant [where I = summaryInv])
    fix t :: string and s' :: "DiffItem list \<times> nat Record"
    assume "summaryInv s'"
    then show "summaryInv (objectPermissionStep ps b n t s')"
      unfolding objectPermissionStep_emit
      by (rule emit_summaryInv [rotated]) (simp add: objItem_def categoryCounters_def)
  qed
qed

lemma compareFieldPermissions_summaryInv:
  assumes "summaryInv st"
  shows "summaryInv (compareFieldPermissions ps b st)"
  unfolding compareFieldPermissions_def
proof (rule fold_invariant [where I = summaryInv, OF assms])
  fix x :: "string \<times> string list" and s :: "DiffItem list \<times> nat Record"
  assume s: "summaryInv s"
  obtain n fs where x: "x = (n, fs)" by (cases x)
  have "summaryInv (fold (\<lambda>f. fold (fieldPermissionStep ps b n f) fieldPermissionTypes) fs s)"
  proof (rule fold_invariant [where I = summaryInv, OF s])
    fix f :: string and s1 :: "DiffItem list \<times> nat Record"
    assume "summaryInv s1"
    then show "summaryInv (fold (fieldPermissionStep ps b n f) fieldPermissionTypes s1)"
    proof (rule fold_invariant [where I = summaryInv])
      fix t :: string and s2 :: "DiffItem list \<times> nat Record"
      assume "summaryInv s2"
      then show "summaryInv (fieldPermissionStep ps b n f t s2)"
        unfolding fieldPermissionStep_emit
        by (rule emit_summaryInv [rotated]) (simp add: fieldItem_def categoryCounters_def)
    qed
  qed
  then show "summaryInv ((case x of (objName, fieldNames) \<Rightarrow>
           fold (\<lambda>fldName. fold (fieldPermissionStep ps b objName fldName) fieldPermissionTypes)
             fieldNames) s)"
    by (simp add: x)
qed

lemma compareSystemPermissions_summaryInv:
  assumes "summaryInv st"
  shows "summaryInv (compareSystemPermissions ps b st)"
  unfolding compareSystemPermissions_def
proof (rule fold_invariant [where I = summaryInv, OF assms])
  fix n :: string and s :: "DiffItem list \<times> nat Record"
  assume "summaryInv s"
  then show "summaryInv (systemPermissionStep ps b n s)"
    unfolding systemPermissionStep_emit
    by (rule emit_summaryInv [rotated]) (simp add: sysItem_def categoryCounters_def)
qed

lemma compareArrayProperty_summaryInv:
  assumes "summaryInv st" and "(cat, summaryKeyOf cat) \<in> set categoryCounters"
  shows "summaryInv (compareArrayProperty ps prop cat b st)"
  unfolding compareArrayProperty_def
proof (rule fold_invariant [where I = summaryInv, OF assms(1)])
  fix i :: string and s :: "DiffItem list \<times> nat Record"
  assume s: "summaryInv s"
  have "summaryKeyOf cat \<in> set (map snd categoryCounters)"
    using assms(2) by (metis in_set_zipE zip_map_fst_snd)
  then have key: "summaryKeyOf cat \<in> set (map fst (snd s))"
    using s by (simp add: summaryInv_def)
  show "summaryInv (arrayPropertyStep ps prop cat b i s)"
    unfolding arrayPropertyStep_emit [OF key]
    by (rule emit_summaryInv [OF _ s]) (simp add: arrayItem_def assms(2))
qed

lemma compareTabVisibilities_summaryInv:
  assumes "summaryInv st"
  shows "summaryInv (compareTabVisibilities ps b st)"
  unfolding compareTabVisibilities_def
proof (rule fold_invariant [where I = summaryInv, OF assms])
  fix n :: string and s :: "DiffItem list \<times> nat Record"
  assume "summaryInv s"
  then show "summaryInv (tabVisibilityStep ps b n s)"
    unfolding tabVisibilityStep_emit
    by (rule emit_summaryInv [rotated]) (simp add: tabItem_def categoryCounters_def)
qed

lemma compareAppVisibilities_summaryInv:
  assumes "summaryInv st"
  shows "summaryInv (compareAppVisibilities ps b st)"
  unfolding compareAppVisibilities_def
proof (rule fold_invariant [where I = summaryInv, OF assms])
  fix n :: string and s :: "DiffItem list \<times> nat Record"
  assume "summaryInv s"
  then have "summaryInv (emit ''appVisibilities'' b (appVisibleItem ps n) s)"
    by (rule emit_summaryInv [rotated]) (simp add: appVisibleItem_def categoryCounters_def)
  then show "summaryInv (appVisibilityStep ps b n s)"
    unfolding appVisibilityStep_emit
    by (rule emit_summaryInv [rotated]) (simp add: appDefaultItem_def categoryCounters_def)
qed

lemma comparePasses_summaryInv: "summaryInv (comparePasses ps b)"
  unfolding comparePasses_def Let_def
  by (intro compareAppVisibilities_summaryInv compareTabVisibilities_summaryInv
        compareArrayProperty_summaryInv compareSystemPermissions_summaryInv
        compareFieldPermissions_summaryInv compareObjectPermissions_summaryInv
        summaryInv_initial)
     (simp_all add: summaryKeyOf_def categoryToSummaryKey_def categoryCounters_def)

lemma comparePasses_categories:
  "\<forall>d \<in> set (fst (comparePasses ps b)). category d \<in> fst ` set categoryCounters"
  by (rule comparePasses_all)
    (simp_all add: objItem_def fieldItem_def sysItem_def arrayItem_def tabItem_def
       appVisibleItem_def appDefaultItem_def categoryCounters_def)

lemma sum_list_indicator:
  "distinct cs \<Longrightarrow>
   sum_list (map (\<lambda>c. if x = c \<and> q then 1 else 0) cs) = (if x \<in> set cs \<and> q then (1::nat) else 0)"
  by (induction cs) auto

lemma changedIn_Cons:
  "changedIn c (d # ds) =
     (if category d = c \<and> diffType d \<noteq> Unchanged then 1 else 0) + changedIn c ds"
  by (simp add: changedIn_def)

lemma sum_changedIn:
  assumes "distinct cs" and "\<forall>d \<in> set ds. category d \<in> set cs"
  shows "sum_list (map (\<lambda>c. changedIn c ds) cs) = length (filter (\<lambda>d. diffType d \<noteq> Unchanged) ds)"
  using assms(2)
proof (induction ds)
  case Nil
  then show ?case by (simp add: changedIn_def)
next
  case (Cons d ds)
  have "sum_list (map (\<lambda>c. changedIn c (d # ds)) cs)
        = sum_list (map (\<lambda>c. if category d = c \<and> diffType d \<noteq> Unchanged then 1 else 0) cs)
          + sum_list (map (\<lambda>c. changedIn c ds) cs)"
    unfolding changedIn_Cons by (simp add: sum_list_addf)
  also have "\<dots> = (if diffType d \<noteq> Unchanged then 1 else 0)
                  + length (filter (\<lambda>d. diffType d \<noteq> Unchanged) ds)"
    using Cons by (simp add: sum_list_indicator [OF assms(1)])
  finally show ?case by simp
qed

lemma map_snd_by_keys:
  "distinct (map fst s) \<Longrightarrow> map snd s = map (\<lambda>k. the (map_of s k)) (map fst s)"
proof (induction s)
  case Nil
  then show ?case by simp
next
  case (Cons p s)
  obtain k v where p: "p = (k, v)" by (cases p)
  have fresh: "k \<notin> set (map fst s)" and dist: "distinct (map fst s)"
    using Cons.prems by (simp_all add: p)
  have "map (\<lambda>k'. the (map_of (p # s) k')) (map fst s) = map (\<lambda>k'. the (map_of s k')) (map fst s)"
  proof (rule map_cong [OF refl])
    fix k' assume "k' \<in> set (map fst s)"
    with fresh have "k' \<noteq> k" by blast
    then show "the (map_of (p # s) k') = the (map_of s k')" by (simp add: p)
  qed
  with Cons.IH [OF dist] show ?case by (simp add: p)
qed

lemma summaryInv_sum:
  assumes "summaryInv st" and "\<forall>d \<in> set (fst st). category d \<in> fst ` set categoryCounters"
  shows "sum_list (map snd (snd st)) = length (filter (\<lambda>d. diffType d \<noteq> Unchanged) (fst st))"
proof -
  have keys: "map fst (snd st) = map snd categoryCounters"
    using assms(1) by (simp add: summaryInv_def)
  then have "distinct (map fst (snd st))" by (simp add: categoryCounters_distinct)
  then have "map snd (snd st) = map (\<lambda>k. the (map_of (snd st) k)) (map snd categoryCounters)"
    using map_snd_by_keys [of "snd st"] keys by simp
  also have "\<dots> = map (\<lambda>(c, k). changedIn c (fst st)) categoryCounters"
    using assms(1) by (auto simp: summaryInv_def)
  also have "\<dots> = map (\<lambda>c. changedIn c (fst st)) (map fst categoryCounters)"
    by (simp add: case_prod_beta comp_def)
  finally have "sum_list (map snd (snd st))
      = sum_list (map (\<lambda>c. changedIn c (fst st)) (map fst categoryCounters))"
    by simp
  also have "\<dots> = length (filter (\<lambda>d. diffType d \<noteq> Unchanged) (fst st))"
    by (rule sum_changedIn) (use assms(2) categoryCounters_distinct(1) in auto)
  finally show ?thesis .
qed

section \<open>The category partition\<close>

text \<open>
  C6. For every \<^verbatim>\<open>ComparisonResult\<close> returned by \<open>compare\<close> (any profile list, either
  value of \<^verbatim>\<open>includeUnchanged\<close>): the category of every \<^verbatim>\<open>DiffItem\<close> is one of the nine
  fixed categories; every item that is not \<open>Unchanged\<close> increments exactly one summary
  counter, that of its category, so each counter is the number of such items of its
  category; and the sum of all summary counts equals \<^verbatim>\<open>totalDifferences\<close>.
\<close>

theorem C6_category_partition:
  "(\<forall>d \<in> set (differences (compare now ps b)). category d \<in> fst ` set categoryCounters)
   \<and> map fst (summary (compare now ps b)) = map snd categoryCounters
   \<and> (\<forall>(c, k) \<in> set categoryCounters.
         map_of (summary (compare now ps b)) k
           = Some (changedIn c (differences (compare now ps b))))
   \<and> sum_list (map snd (summary (compare now ps b))) = totalDifferences (compare now ps b)
   \<and> totalDifferences (compare now ps b)
       = length (filter (\<lambda>d. diffType d \<noteq> Unchanged) (differences (compare now ps b)))"
proof -
  have inv: "summaryInv (comparePasses ps b)" by (rule comparePasses_summaryInv)
  have cats: "\<forall>d \<in> set (fst (comparePasses ps b)). category d \<in> fst ` set categoryCounters"
    by (rule comparePasses_categories)
  have sum: "sum_list (map snd (snd (comparePasses ps b)))
      = length (filter (\<lambda>d. diffType d \<noteq> Unchanged) (fst (comparePasses ps b)))"
    by (rule summaryInv_sum [OF inv cats])
  show ?thesis
    unfolding differences_compare summary_compare totalDifferences_compare
    using inv cats sum by (simp add: summaryInv_def)
qed

text \<open>
  Scenario B with \<^verbatim>\<open>includeUnchanged\<close>: six items of category \<^verbatim>\<open>objectPermission\<close>,
  one of them not \<open>Unchanged\<close>, counted once in \<^verbatim>\<open>objectPermissions\<close>.
\<close>

theorem C6_category_partition_witness:
  "map category (differences (compare sampleNow scenarioB True))
     = replicate 6 ''objectPermission''
   \<and> map diffType (differences (compare sampleNow scenarioB True))
     = [Removed, Unchanged, Unchanged, Unchanged, Unchanged, Unchanged]
   \<and> map_of (summary (compare sampleNow scenarioB True)) ''objectPermissions'' = Some 1
   \<and> sum_list (map snd (summary (compare sampleNow scenarioB True))) = 1
   \<and> totalDifferences (compare sampleNow scenarioB True) = 1"
proof -
  have d: "map category (differences (compare sampleNow scenarioB True))
             = replicate 6 ''objectPermission''"
    and t: "map diffType (differences (compare sampleNow scenarioB True))
             = [Removed, Unchanged, Unchanged, Unchanged, Unchanged, Unchanged]"
    by code_simp+
  have n: "changedIn ''objectPermission'' (differences (compare sampleNow scenarioB True)) = 1"
    and l: "length (filter (\<lambda>d. diffType d \<noteq> Unchanged)
              (differences (compare sampleNow scenarioB True))) = 1"
    by code_simp+
  have k: "(''objectPermission'', ''objectPermissions'') \<in> set categoryCounters"
    by (simp add: categoryCounters_def)
  from C6_category_partition [of sampleNow scenarioB True] k n l d t
  show ?thesis by auto
qed

section \<open>Determinism\<close>

text \<open>
  C7. \<open>compare\<close> is deterministic apart from the timestamp: two calls with identical
  profiles and the same \<^verbatim>\<open>includeUnchanged\<close> flag, made at any two moments \<open>now\<close> and
  \<open>now'\<close>, yield identical \<^verbatim>\<open>differences\<close> arrays (same items in the same order) and
  identical \<^verbatim>\<open>summary\<close> maps, and identical \<^verbatim>\<open>profiles\<close> and \<^verbatim>\<open>totalDifferences\<close> too.
\<close>

theorem C7_compare_deterministic:
  "differences (compare now ps b) = differences (compare now' ps b)
   \<and> summary (compare now ps b) = summary (compare now' ps b)
   \<and> profiles (compare now ps b) = profiles (compare now' ps b)
   \<and> totalDifferences (compare now ps b) = totalDifferences (compare now' ps b)"
  by (simp add: compare_def split: prod.splits)

text \<open>Scenario A compared at two moments.\<close>

theorem C7_compare_deterministic_witness:
  "timestamp (compare sampleNow scenarioA False) \<noteq> timestamp (compare laterNow scenarioA False)
   \<and> map path (differences (compare laterNow scenarioA False))
       = [''objects.Account.permissions.delete'']
   \<and> map_of (summary (compare laterNow scenarioA False)) ''objectPermissions'' = Some 1"
proof -
  have t: "timestamp (compare sampleNow scenarioA False)
             \<noteq> timestamp (compare laterNow scenarioA False)"
    by (simp add: compare_def sampleNow_def laterNow_def split: prod.splits)
  have d: "map path (differences (compare sampleNow scenarioA False))
             = [''objects.Account.permissions.delete'']"
    and s: "map_of (summary (compare sampleNow scenarioA False)) ''objectPermissions'' = Some 1"
    by code_simp+
  from C7_compare_deterministic [of sampleNow scenarioA False laterNow] t d s
  show ?thesis by simp
qed

section \<open>The two copies of the diff engine\<close>

lemma determineDiffType_svc_eq: "determineDiffType_svc = determineDiffType"
  by (rule ext) (simp add: determineDiffType_svc_def determineDiffType_def)

lemma determineDiffTypeForStrings_svc_eq: "determineDiffTypeForStrings_svc = determineDiffTypeForStrings"
  by (rule ext) (simp add: determineDiffTypeForStrings_svc_def determineDiffTypeForStrings_def)

lemma compareObjectPermissions_svc_eq: "compareObjectPermissions_svc = compareObjectPermissions"
proof -
  have names: "allObjectNames_svc = allObjectNames"
    by (rule ext) (simp add: allObjectNames_svc_def allObjectNames_def)
  have step: "objectPermissionStep_svc = objectPermissionStep"
    by (intro ext)
      (simp add: objectPermissionStep_svc_def objectPermissionStep_def determineDiffType_svc_eq)
  show ?thesis
    by (intro ext)
      (simp add: compareObjectPermissions_svc_def compareObjectPermissions_def names step)
qed

lemma compareFieldPermissions_svc_eq: "compareFieldPermissions_svc = compareFieldPermissions"
proof -
  have add: "addFields_svc = addFields"
    by (intro ext) (simp add: addFields_svc_def addFields_def)
  have names: "allFieldNames_svc = allFieldNames"
    by (rule ext) (simp add: allFieldNames_svc_def allFieldNames_def add)
  have step: "fieldPermissionStep_svc = fieldPermissionStep"
    by (intro ext)
      (simp add: fieldPermissionStep_svc_def fieldPermissionStep_def determineDiffType_svc_eq)
  show ?thesis
    by (intro ext)
      (simp add: compareFieldPermissions_svc_def compareFieldPermissions_def names step)
qed

lemma compareSystemPermissions_svc_eq: "compareSystemPermissions_svc = compareSystemPermissions"
proof -
  have names: "allPermissionNames_svc = allPermissionNames"
    by (rule ext) (simp add: allPermissionNames_svc_def allPermissionNames_def)
  have step: "systemPermissionStep_svc = systemPermissionStep"
    by (intro ext)
      (simp add: systemPermissionStep_svc_def systemPermissionStep_def determineDiffType_svc_eq)
  show ?thesis
    by (intro ext)
      (simp add: compareSystemPermissions_svc_def compareSystemPermissions_def names step)
qed

lemma compareArrayProperty_svc_eq: "compareArrayProperty_svc = compareArrayProperty"
proof -
  have items: "allItems_svc = allItems"
    by (intro ext) (simp add: allItems_svc_def allItems_def)
  have key: "summaryKeyOf_svc = summaryKeyOf"
    by (rule ext)
      (simp add: summaryKeyOf_svc_def summaryKeyOf_def categoryToSummaryKey_svc_def
         categoryToSummaryKey_def)
  have step: "arrayPropertyStep_svc = arrayPropertyStep"
    by (intro ext)
      (simp add: arrayPropertyStep_svc_def arrayPropertyStep_def determineDiffType_svc_eq key
         Let_def split: prod.splits)
  show ?thesis
    by (intro ext)
      (simp add: compareArrayProperty_svc_def compareArrayProperty_def items step)
qed

lemma compareTabVisibilities_svc_eq: "compareTabVisibilities_svc = compareTabVisibilities"
proof -
  have names: "allTabs_svc = allTabs"
    by (rule ext) (simp add: allTabs_svc_def allTabs_def)
  have step: "tabVisibilityStep_svc = tabVisibilityStep"
    by (intro ext)
      (simp add: tabVisibilityStep_svc_def tabVisibilityStep_def determineDiffTypeForStrings_svc_eq)
  show ?thesis
    by (intro ext)
      (simp add: compareTabVisibilities_svc_def compareTabVisibilities_def names step)
qed

lemma compareAppVisibilities_svc_eq: "compareAppVisibilities_svc = compareAppVisibilities"
proof -
  have names: "allApps_svc = allApps"
    by (rule ext) (simp add: allApps_svc_def allApps_def)
  have step: "appVisibilityStep_svc = appVisibilityStep"
    by (intro ext)
      (simp add: appVisibilityStep_svc_def appVisibilityStep_def determineDiffType_svc_eq)
  show ?thesis
    by (intro ext)
      (simp add: compareAppVisibilities_svc_def compareAppVisibilities_def names step)
qed

lemma comparePasses_svc_eq: "comparePasses_svc ps b = comparePasses ps b"
  by (simp add: comparePasses_svc_def comparePasses_def initialSummary_svc_def initialSummary_def
      compareObjectPermissions_svc_eq compareFieldPermissions_svc_eq
      compareSystemPermissions_svc_eq compareArrayProperty_svc_eq
      compareTabVisibilities_svc_eq compareAppVisibilities_svc_eq)

text \<open>
  C9. The two copies of the diff engine, \<open>compare\<close> of lib/diff.ts and \<open>compare_svc\<close> of
  the backend service, return equal \<^verbatim>\<open>profiles\<close>, \<^verbatim>\<open>totalDifferences\<close>,
  \<^verbatim>\<open>differences\<close> and \<^verbatim>\<open>summary\<close> for every list of profiles and every value of
  \<^verbatim>\<open>includeUnchanged\<close>, whatever the two timestamps are.
\<close>

theorem C9_engines_agree:
  "profiles (compare_svc now' ps b) = profiles (compare now ps b)
   \<and> totalDifferences (compare_svc now' ps b) = totalDifferences (compare now ps b)
   \<and> differences (compare_svc now' ps b) = differences (compare now ps b)
   \<and> summary (compare_svc now' ps b) = summary (compare now ps b)"
  by (simp add: compare_svc_def compare_def comparePasses_svc_eq split: prod.splits)

text \<open>Scenario B through the engine of the backend service.\<close>

theorem C9_engines_agree_witness:
  "map diffType (differences (compare_svc laterNow scenarioB False)) = [Removed]
   \<and> totalDifferences (compare_svc laterNow scenarioB False) = 1
   \<and> map_of (summary (compare_svc laterNow scenarioB False)) ''objectPermissions'' = Some 1"
proof -
  have d: "map diffType (differences (compare sampleNow scenarioB False)) = [Removed]"
    and n: "totalDifferences (compare sampleNow scenarioB False) = 1"
    and s: "map_of (summary (compare sampleNow scenarioB False)) ''objectPermissions'' = Some 1"
    by code_simp+
  from C9_engines_agree [of laterNow scenarioB False sampleNow] d n s
  show ?thesis by simp
qed

section \<open>The profile builder\<close>

lemma splitDot_nonempty: "splitDot s \<noteq> []"
  by (induction s) (auto split: list.splits)

lemma splitDot_no_dot: "CHR ''.'' \<notin> set s \<Longrightarrow> splitDot s = [s]"
  by (induction s) (auto split: list.splits)

lemma splitDot_first:
  "CHR ''.'' \<notin> set a \<Longrightarrow> splitDot (a @ CHR ''.'' # rest) = a # splitDot rest"
  by (induction a) (auto split: list.splits)

lemma fieldNameOf_no_dot: "CHR ''.'' \<notin> set fld \<Longrightarrow> fieldNameOf fld = fld"
  by (simp add: fieldNameOf_def splitDot_no_dot)

lemma fieldNameOf_two:
  assumes "CHR ''.'' \<notin> set a" and "CHR ''.'' \<notin> set b"
  shows "fieldNameOf (a @ ''.'' @ b) = (if b = [] then a @ ''.'' @ b else b)"
  using assms by (simp add: fieldNameOf_def splitDot_first splitDot_no_dot)

lemma fieldNameOf_more:
  assumes "CHR ''.'' \<notin> set a" and "CHR ''.'' \<notin> set b"
  shows "fieldNameOf (a @ ''.'' @ b @ ''.'' @ rest)
           = (if b = [] then a @ ''.'' @ b @ ''.'' @ rest else b)"
  using assms by (simp add: fieldNameOf_def splitDot_first)

text \<open>The field map of one object after a run of assignments: the last row of a key wins.\<close>

lemma fold_update_lookup:
  "map_of (fold (\<lambda>r m. AList.update (key r) (val r) m) rows m0) k =
     (if filter (\<lambda>r. key r = k) rows = [] then map_of m0 k
      else Some (val (last (filter (\<lambda>r. key r = k) rows))))"
proof (induction rows rule: rev_induct)
  case Nil
  then show ?case by simp
next
  case (snoc r rows)
  then show ?case by (simp add: update_conv')
qed

lemma filter_key_empty: "n \<notin> f ` set rows \<Longrightarrow> filter (\<lambda>r. f r = n) rows = []"
  by (auto simp: filter_empty_conv)

lemma map_of_fieldStep:
  "map_of (fieldStep r objs) n =
     (if n = f_SobjectType r
      then Some \<lparr>permissions = (case map_of objs n of
                                  None \<Rightarrow> defaultObjectPermission
                                | Some oa \<Rightarrow> permissions oa),
                 fieldMap = AList.update (fieldNameOf (f_Field r))
                              \<lparr>fp_read = f_PermissionsRead r, fp_edit = f_PermissionsEdit r\<rparr>
                              (case map_of objs n of None \<Rightarrow> [] | Some oa \<Rightarrow> fieldMap oa)\<rparr>
      else map_of objs n)"
  by (auto simp: fieldStep_def Let_def update_conv' split: option.splits)

lemma map_of_fold_fieldStep:
  "map_of (fold fieldStep rows objs) n =
     (if n \<in> f_SobjectType ` set rows
      then Some \<lparr>permissions = (case map_of objs n of
                                  None \<Rightarrow> defaultObjectPermission
                                | Some oa \<Rightarrow> permissions oa),
                 fieldMap = fold (\<lambda>r m. AList.update (fieldNameOf (f_Field r))
                                    \<lparr>fp_read = f_PermissionsRead r, fp_edit = f_PermissionsEdit r\<rparr> m)
                              (filter (\<lambda>r. f_SobjectType r = n) rows)
                              (case map_of objs n of None \<Rightarrow> [] | Some oa \<Rightarrow> fieldMap oa)\<rparr>
      else map_of objs n)"
proof (induction rows arbitrary: objs)
  case Nil
  then show ?case by simp
next
  case (Cons r rows)
  show ?case
    by (simp add: Cons.IH map_of_fieldStep filter_key_empty)
qed

lemma map_of_fold_objectStep_None:
  "n \<notin> o_SobjectType ` set rows \<Longrightarrow> map_of (fold objectStep rows objs) n = map_of objs n"
  by (induction rows arbitrary: objs) (auto simp: objectStep_def update_conv')

lemma objects_build:
  "objects (buildNormalizedProfile profile data) =
     fold fieldStep (b_fieldPermissions data) (fold objectStep (b_objectPermissions data) [])"
  by (simp add: buildNormalizedProfile_def Let_def)

lemma build_object_entry:
  assumes "r \<in> set (b_fieldPermissions data)"
  shows "map_of (objects (buildNormalizedProfile profile data)) (f_SobjectType r) =
     Some \<lparr>permissions =
             (case map_of (fold objectStep (b_objectPermissions data) []) (f_SobjectType r) of
                None \<Rightarrow> defaultObjectPermission
              | Some oa \<Rightarrow> permissions oa),
           fieldMap =
             fold (\<lambda>x m. AList.update (fieldNameOf (f_Field x))
                     \<lparr>fp_read = f_PermissionsRead x, fp_edit = f_PermissionsEdit x\<rparr> m)
               (filter (\<lambda>x. f_SobjectType x = f_SobjectType r) (b_fieldPermissions data))
               (case map_of (fold objectStep (b_objectPermissions data) []) (f_SobjectType r) of
                  None \<Rightarrow> []
                | Some oa \<Rightarrow> fieldMap oa)\<rparr>"
  unfolding objects_build map_of_fold_fieldStep using assms by simp

lemma build_field_entry:
  assumes "r \<in> set (b_fieldPermissions data)"
    and "map_of (objects (buildNormalizedProfile profile data)) (f_SobjectType r) = Some oa"
  shows "map_of (fieldMap oa) (fieldNameOf (f_Field r)) =
     Some \<lparr>fp_read = f_PermissionsRead
                        (last (filter (\<lambda>x. f_SobjectType x = f_SobjectType r
                                            \<and> fieldNameOf (f_Field x) = fieldNameOf (f_Field r))
                                 (b_fieldPermissions data))),
           fp_edit = f_PermissionsEdit
                        (last (filter (\<lambda>x. f_SobjectType x = f_SobjectType r
                                            \<and> fieldNameOf (f_Field x) = fieldNameOf (f_Field r))
                                 (b_fieldPermissions data)))\<rparr>"
proof -
  let ?rows = "filter (\<lambda>x. f_SobjectType x = f_SobjectType r) (b_fieldPermissions data)"
  let ?same = "filter (\<lambda>x. f_SobjectType x = f_SobjectType r
                            \<and> fieldNameOf (f_Field x) = fieldNameOf (f_Field r))
                 (b_fieldPermissions data)"
  have ff: "filter (\<lambda>x. fieldNameOf (f_Field x) = fieldNameOf (f_Field r)) ?rows = ?same"
    by (simp add: conj_commute)
  have "r \<in> set ?same" using assms(1) by simp
  then have ne: "?same \<noteq> []" by (metis empty_iff list.set(1))
  from assms(2) have fm: "fieldMap oa =
      fold (\<lambda>x m. AList.update (fieldNameOf (f_Field x))
              \<lparr>fp_read = f_PermissionsRead x, fp_edit = f_PermissionsEdit x\<rparr> m) ?rows
        (case map_of (fold objectStep (b_objectPermissions data) []) (f_SobjectType r) of
           None \<Rightarrow> [] | Some oa \<Rightarrow> fieldMap oa)"
    unfolding build_object_entry [OF assms(1)] by auto
  show ?thesis
    unfolding fm
      fold_update_lookup [where key = "\<lambda>x. fieldNameOf (f_Field x)"
        and val = "\<lambda>x. \<lparr>fp_read = f_PermissionsRead x, fp_edit = f_PermissionsEdit x\<rparr>"]
      ff
    using ne by simp
qed

section \<open>Default synthesis\<close>

text \<open>
  C8 (as amended). For every input bundle containing a field-permission row whose object
  has no object-permission row, the built \<^verbatim>\<open>NormalizedProfile\<close> contains an
  \<^verbatim>\<open>objects\<close> entry for that object whose permissions has all six sub-permissions equal
  to false, while the field entry under the row's field name carries the read/edit values
  of the last field-permission row of the bundle with that object and field name; these
  are the row's own values when no later row has the same object and field name.
\<close>

theorem C8_default_synthesis:
  assumes "r \<in> set (b_fieldPermissions data)"
    and "\<forall>op \<in> set (b_objectPermissions data). o_SobjectType op \<noteq> f_SobjectType r"
  shows "\<exists>oa. map_of (objects (buildNormalizedProfile profile data)) (f_SobjectType r) = Some oa
           \<and> permissions oa = \<lparr>read = False, create = False, edit = False, delete = False,
                                viewAll = False, modifyAll = False\<rparr>
           \<and> map_of (fieldMap oa) (fieldNameOf (f_Field r)) =
               Some \<lparr>fp_read = f_PermissionsRead
                        (last (filter (\<lambda>x. f_SobjectType x = f_SobjectType r
                                            \<and> fieldNameOf (f_Field x) = fieldNameOf (f_Field r))
                                 (b_fieldPermissions data))),
                     fp_edit = f_PermissionsEdit
                        (last (filter (\<lambda>x. f_SobjectType x = f_SobjectType r
                                            \<and> fieldNameOf (f_Field x) = fieldNameOf (f_Field r))
                                 (b_fieldPermissions data)))\<rparr>"
proof -
  have "f_SobjectType r \<notin> o_SobjectType ` set (b_objectPermissions data)"
    using assms(2) by auto
  then have none: "map_of (fold objectStep (b_objectPermissions data) []) (f_SobjectType r) = None"
    by (simp add: map_of_fold_objectStep_None)
  obtain oa where oa: "map_of (objects (buildNormalizedProfile profile data)) (f_SobjectType r) = Some oa"
    using build_object_entry [OF assms(1)] by blast
  have "permissions oa = defaultObjectPermission"
    using oa unfolding build_object_entry [OF assms(1)] none by auto
  then have perm: "permissions oa = \<lparr>read = False, create = False, edit = False, delete = False,
                                viewAll = False, modifyAll = False\<rparr>"
    by (simp add: defaultObjectPermission_def)
  from oa perm build_field_entry [OF assms(1) oa] show ?thesis by blast
qed

text \<open>
  A bundle with the single row \<^verbatim>\<open>Account.Revenue\<close> (read, not edit) and no
  object-permission row: the entry of \<^verbatim>\<open>Account\<close> has the default permissions and the
  field \<^verbatim>\<open>Revenue\<close> with the row's values.
\<close>

theorem C8_default_synthesis_witness:
  "objects (buildNormalizedProfile sampleProfile bundleOneField) =
     [(''Account'',
       \<lparr>permissions = \<lparr>read = False, create = False, edit = False, delete = False,
                        viewAll = False, modifyAll = False\<rparr>,
        fieldMap = [(''Revenue'', \<lparr>fp_read = True, fp_edit = False\<rparr>)]\<rparr>)]"
proof -
  let ?r = "fieldRow ''Account'' ''Account.Revenue'' True False"
  have rows: "b_fieldPermissions bundleOneField = [?r]"
    and none: "b_objectPermissions bundleOneField = []"
    by (simp_all add: bundleOneField_def emptyBundle_def)
  have h1: "?r \<in> set (b_fieldPermissions bundleOneField)" by (simp add: rows)
  have h2: "\<forall>op \<in> set (b_objectPermissions bundleOneField). o_SobjectType op \<noteq> f_SobjectType ?r"
    by (simp add: none)
  have ev: "objects (buildNormalizedProfile sampleProfile bundleOneField) =
     [(''Account'',
       \<lparr>permissions = \<lparr>read = False, create = False, edit = False, delete = False,
                        viewAll = False, modifyAll = False\<rparr>,
        fieldMap = [(''Revenue'', \<lparr>fp_read = True, fp_edit = False\<rparr>)]\<rparr>)]"
    by code_simp
  from C8_default_synthesis [OF h1 h2, of sampleProfile] ev show ?thesis by simp
qed

text \<open>
  C8 as stated fails for the first of two rows for the same field: the entry of
  \<^verbatim>\<open>Revenue\<close> carries the values of the second row (read, not edit), not those of the
  first (read and edit).
\<close>

theorem C8_counterexample:
  "b_fieldPermissions bundleTwoRows =
     [fieldRow ''Account'' ''Account.Revenue'' True True,
      fieldRow ''Account'' ''Account.Revenue'' True False]
   \<and> b_objectPermissions bundleTwoRows = []
   \<and> objects (buildNormalizedProfile sampleProfile bundleTwoRows) =
     [(''Account'',
       \<lparr>permissions = \<lparr>read = False, create = False, edit = False, delete = False,
                        viewAll = False, modifyAll = False\<rparr>,
        fieldMap = [(''Revenue'', \<lparr>fp_read = True, fp_edit = False\<rparr>)]\<rparr>)]"
  by code_simp

section \<open>The field name of a row\<close>

text \<open>
  C10 (as amended). When building a \<^verbatim>\<open>NormalizedProfile\<close>, the field name for a
  field-permission row is the second dot-separated segment of its \<^verbatim>\<open>Field\<close> value when
  that segment is not empty; for every row whose \<^verbatim>\<open>Field\<close> contains no dot, and for
  every row whose second segment is empty, the entire \<^verbatim>\<open>Field\<close> value is used
  (\<^verbatim>\<open>Revenue\<close> yields \<^verbatim>\<open>Revenue\<close>), and for \<^verbatim>\<open>A.B.C\<close> the field name is \<^verbatim>\<open>B\<close>. The
  entry of the row's object has a field under that name.
\<close>

theorem C10_field_name:
  "(CHR ''.'' \<notin> set fld \<longrightarrow> fieldNameOf fld = fld)
   \<and> (CHR ''.'' \<notin> set a \<and> CHR ''.'' \<notin> set b \<and> b \<noteq> [] \<longrightarrow>
        fieldNameOf (a @ ''.'' @ b) = b \<and> fieldNameOf (a @ ''.'' @ b @ ''.'' @ rest) = b)
   \<and> (CHR ''.'' \<notin> set a \<longrightarrow>
        fieldNameOf (a @ ''.'') = a @ ''.'' \<and> fieldNameOf (a @ ''..'' @ rest) = a @ ''..'' @ rest)
   \<and> fieldNameOf ''Revenue'' = ''Revenue''
   \<and> fieldNameOf ''A.B.C'' = ''B''
   \<and> (r \<in> set (b_fieldPermissions data) \<longrightarrow>
        (\<exists>oa. map_of (objects (buildNormalizedProfile profile data)) (f_SobjectType r) = Some oa
              \<and> fieldNameOf (f_Field r) \<in> fst ` set (fieldMap oa)))"
proof -
  have 1: "CHR ''.'' \<notin> set fld \<longrightarrow> fieldNameOf fld = fld"
    by (simp add: fieldNameOf_no_dot)
  have 2: "CHR ''.'' \<notin> set a \<and> CHR ''.'' \<notin> set b \<and> b \<noteq> [] \<longrightarrow>
        fieldNameOf (a @ ''.'' @ b) = b \<and> fieldNameOf (a @ ''.'' @ b @ ''.'' @ rest) = b"
    using fieldNameOf_two [of a b] fieldNameOf_more [of a b rest] by simp
  have 3: "CHR ''.'' \<notin> set a \<longrightarrow>
        fieldNameOf (a @ ''.'') = a @ ''.'' \<and> fieldNameOf (a @ ''..'' @ rest) = a @ ''..'' @ rest"
    using fieldNameOf_two [of a "[]"] fieldNameOf_more [of a "[]" rest] by simp
  have 4: "fieldNameOf ''Revenue'' = ''Revenue''" and 5: "fieldNameOf ''A.B.C'' = ''B''"
    by (simp_all add: fieldNameOf_def)
  have 6: "r \<in> set (b_fieldPermissions data) \<longrightarrow>
        (\<exists>oa. map_of (objects (buildNormalizedProfile profile data)) (f_SobjectType r) = Some oa
              \<and> fieldNameOf (f_Field r) \<in> fst ` set (fieldMap oa))"
  proof
    assume r: "r \<in> set (b_fieldPermissions data)"
    then obtain oa where
      oa: "map_of (objects (buildNormalizedProfile profile data)) (f_SobjectType r) = Some oa"
      using build_object_entry by blast
    from build_field_entry [OF r oa]
    have "map_of (fieldMap oa) (fieldNameOf (f_Field r)) \<noteq> None" by simp
    then have "fieldNameOf (f_Field r) \<in> fst ` set (fieldMap oa)"
      by (simp add: map_of_eq_None_iff)
    with oa show "\<exists>oa. map_of (objects (buildNormalizedProfile profile data)) (f_SobjectType r) = Some oa
              \<and> fieldNameOf (f_Field r) \<in> fst ` set (fieldMap oa)"
      by blast
  qed
  from 1 2 3 4 5 6 show ?thesis by blast
qed

text \<open>
  The rule of C10 at \<^verbatim>\<open>Revenue\<close>, \<^verbatim>\<open>Account.Revenue\<close>, \<^verbatim>\<open>A.B.C\<close> and \<^verbatim>\<open>Account.\<close>,
  and the field entry of the single row of a bundle.
\<close>

theorem C10_field_name_witness:
  "fieldNameOf ''Revenue'' = ''Revenue''
   \<and> fieldNameOf ''Account.Revenue'' = ''Revenue''
   \<and> fieldNameOf ''A.B.C'' = ''B''
   \<and> fieldNameOf ''Account.'' = ''Account.''
   \<and> map_of (objects (buildNormalizedProfile sampleProfile bundleOneField)) ''Account'' \<noteq> None"
proof -
  let ?r = "fieldRow ''Account'' ''Account.Revenue'' True False"
  have r: "?r \<in> set (b_fieldPermissions bundleOneField)"
    by (simp add: bundleOneField_def emptyBundle_def)
  have obj: "f_SobjectType ?r = ''Account''" by (simp add: fieldRow_def)
  have n: "CHR ''.'' \<notin> set ''Revenue''" "CHR ''.'' \<notin> set ''Account''" "CHR ''.'' \<notin> set ''A''"
    "CHR ''.'' \<notin> set ''B''" "''Revenue'' \<noteq> []" "''B'' \<noteq> []"
    by simp_all
  from C10_field_name [of "''Revenue''" "''Account''" "''Revenue''" "[]" ?r bundleOneField sampleProfile]
    C10_field_name [of "[]" "''A''" "''B''" "''C''" ?r bundleOneField sampleProfile]
    r n obj
  show ?thesis by auto
qed

text \<open>
  C10 as stated fails when the second segment is empty: \<^verbatim>\<open>Account.\<close> splits into
  \<^verbatim>\<open>Account\<close> and the empty string, and the field name is the whole value.
\<close>

theorem C10_counterexample:
  "splitDot ''Account.'' = [''Account'', '''']
   \<and> fieldNameOf ''Account.'' = ''Account.''
   \<and> objects (buildNormalizedProfile sampleProfile bundleTrailingDot) =
     [(''Account'',
       \<lparr>permissions = \<lparr>read = False, create = False, edit = False, delete = False,
                        viewAll = False, modifyAll = False\<rparr>,
        fieldMap = [(''Account.'', \<lparr>fp_read = True, fp_edit = False\<rparr>)]\<rparr>)]"
  by code_simp

section \<open>The sort invariant\<close>

lemma apexClasses_build: "apexClasses (buildNormalizedProfile profile data) = sort (b_apexClasses data)"
  and visualforcePages_build:
    "visualforcePages (buildNormalizedProfile profile data) = sort (b_visualforcePages data)"
  and lightningPages_build:
    "lightningPages (buildNormalizedProfile profile data) = sort (b_lightningPages data)"
  and recordTypes_build:
    "recordTypes (buildNormalizedProfile profile data) = sort (b_recordTypes data)"
  by (simp_all add: buildNormalizedProfile_def Let_def)

lemma strict_sorted_sort:
  "sorted_wrt (<) (sort (xs :: string list)) \<longleftrightarrow> distinct xs"
  by (simp add: strict_sorted_iff)

text \<open>
  C5 (as amended). For every \<^verbatim>\<open>NormalizedProfile\<close> produced by the profile builder from
  any input bundle, the four list fields \<^verbatim>\<open>apexClasses\<close>, \<^verbatim>\<open>visualforcePages\<close>,
  \<^verbatim>\<open>lightningPages\<close> and \<^verbatim>\<open>recordTypes\<close> are sorted ascending and hold exactly the
  elements of the bundle's lists, each as often as it occurs there; a list is strictly
  sorted, without duplicate elements, exactly when the bundle's list has no duplicates.
\<close>

theorem C5_sorted_lists:
  "sorted (apexClasses (buildNormalizedProfile profile data))
   \<and> mset (apexClasses (buildNormalizedProfile profile data)) = mset (b_apexClasses data)
   \<and> (sorted_wrt (<) (apexClasses (buildNormalizedProfile profile data))
        \<longleftrightarrow> distinct (b_apexClasses data))
   \<and> sorted (visualforcePages (buildNormalizedProfile profile data))
   \<and> mset (visualforcePages (buildNormalizedProfile profile data)) = mset (b_visualforcePages data)
   \<and> (sorted_wrt (<) (visualforcePages (buildNormalizedProfile profile data))
        \<longleftrightarrow> distinct (b_visualforcePages data))
   \<and> sorted (lightningPages (buildNormalizedProfile profile data))
   \<and> mset (lightningPages (buildNormalizedProfile profile data)) = mset (b_lightningPages data)
   \<and> (sorted_wrt (<) (lightningPages (buildNormalizedProfile profile data))
        \<longleftrightarrow> distinct (b_lightningPages data))
   \<and> sorted (recordTypes (buildNormalizedProfile profile data))
   \<and> mset (recordTypes (buildNormalizedProfile profile data)) = mset (b_recordTypes data)
   \<and> (sorted_wrt (<) (recordTypes (buildNormalizedProfile profile data))
        \<longleftrightarrow> distinct (b_recordTypes data))"
  unfolding apexClasses_build visualforcePages_build lightningPages_build recordTypes_build
    strict_sorted_sort
  by simp

text \<open>
  A bundle whose record types are distinct and out of order: the built list is strictly
  sorted.
\<close>

theorem C5_sorted_lists_witness:
  "distinct (b_recordTypes bundleDuplicateClass)
   \<and> recordTypes (buildNormalizedProfile sampleProfile bundleDuplicateClass)
       = [''Customer'', ''Partner'']
   \<and> sorted_wrt (<) (recordTypes (buildNormalizedProfile sampleProfile bundleDuplicateClass))"
proof -
  have d: "distinct (b_recordTypes bundleDuplicateClass)"
    by (simp add: bundleDuplicateClass_def emptyBundle_def)
  have e: "recordTypes (buildNormalizedProfile sampleProfile bundleDuplicateClass)
             = [''Customer'', ''Partner'']"
    by code_simp
  from C5_sorted_lists [of sampleProfile bundleDuplicateClass] d e show ?thesis by simp
qed

text \<open>
  C5 as stated fails: the builder sorts and does not remove duplicates. When the class name
  \<^verbatim>\<open>Utils\<close> is resolved twice, \<^verbatim>\<open>apexClasses\<close> holds it twice and is not strictly
  sorted.
\<close>

theorem C5_counterexample:
  "b_apexClasses bundleDuplicateClass = [''Utils'', ''Helper'', ''Utils'']
   \<and> apexClasses (buildNormalizedProfile sampleProfile bundleDuplicateClass)
       = [''Helper'', ''Utils'', ''Utils'']
   \<and> \<not> distinct (apexClasses (buildNormalizedProfile sampleProfile bundleDuplicateClass))
   \<and> \<not> sorted_wrt (<) (apexClasses (buildNormalizedProfile sampleProfile bundleDuplicateClass))"
  by code_simp

section \<open>Requested profiles and their bundles\<close>

lemma withBundle_dom: "dom (withBundle m parentId upd result) = dom result"
  by (auto simp: withBundle_def split: option.splits if_splits)

lemma permSetStep_dom: "dom (permSetStep permSet result) = dom result"
  by (auto simp: permSetStep_def split: option.splits if_splits)

lemma accessStep_dom: "dom (accessStep m c p rt t a access result) = dom result"
  unfolding accessStep_def by (rule withBundle_dom)

lemma fold_dom:
  assumes "\<And>x r. dom (f x r) = dom r"
  shows "dom (fold f xs r) = dom r"
  by (induction xs arbitrary: r) (simp_all add: assms)

lemma initial_bundles_dom:
  "dom (fold (\<lambda>pid result. result(pid \<mapsto> v)) ids r) = set ids \<union> dom r"
  by (induction ids arbitrary: r) auto

lemma groupDataByProfile_dom:
  "dom (groupDataByProfile ids m ops fps pss sea c p rt t a) = set ids"
  unfolding groupDataByProfile_def Let_def
  by (simp add: fold_dom [of "accessStep m c p rt t a"] accessStep_dom
      fold_dom [of permSetStep] permSetStep_dom
      fold_dom withBundle_dom initial_bundles_dom)

lemma profiles_map_lookup:
  "fold (\<lambda>p m. m(prof_Id p \<mapsto> p)) all m0 pid =
     (if filter (\<lambda>p. prof_Id p = pid) all = [] then m0 pid
      else Some (last (filter (\<lambda>p. prof_Id p = pid) all)))"
  by (induction all rule: rev_induct) simp_all

lemma profiles_map_dom:
  "fold (\<lambda>p m. m(prof_Id p \<mapsto> p)) all Map.empty pid \<noteq> None \<longleftrightarrow> pid \<in> prof_Id ` set all"
  unfolding profiles_map_lookup by (auto simp: filter_empty_conv)

lemma profiles_map_id:
  assumes "fold (\<lambda>p m. m(prof_Id p \<mapsto> p)) all Map.empty pid = Some p"
  shows "prof_Id p = pid"
proof -
  let ?same = "filter (\<lambda>p. prof_Id p = pid) all"
  from assms have ne: "?same \<noteq> []" and p: "p = last ?same"
    unfolding profiles_map_lookup by (auto split: if_splits)
  from ne have "last ?same \<in> set ?same" by (rule last_in_set)
  then show ?thesis unfolding p by simp
qed

lemma profileId_build: "profileId (buildNormalizedProfile profile data) = prof_Id profile"
  by (simp add: buildNormalizedProfile_def Let_def)

lemma buildAll_ids_fold:
  assumes "set ids \<subseteq> dom pd" and "\<And>pid p. profs pid = Some p \<Longrightarrow> prof_Id p = pid"
  shows "map profileId (fold (\<lambda>pid out.
             case profs pid of
               None \<Rightarrow> out
             | Some profile \<Rightarrow>
                 (case pd pid of
                    None \<Rightarrow> out
                  | Some data \<Rightarrow> out @ [buildNormalizedProfile profile data])) ids acc)
         = map profileId acc @ filter (\<lambda>pid. profs pid \<noteq> None) ids"
  using assms(1)
proof (induction ids arbitrary: acc)
  case Nil
  then show ?case by simp
next
  case (Cons pid ids)
  then obtain data where d: "pd pid = Some data" by auto
  show ?case
  proof (cases "profs pid")
    case None
    with Cons show ?thesis by simp
  next
    case (Some p)
    with assms(2) have "prof_Id p = pid" by blast
    with Some d Cons show ?thesis by (simp add: profileId_build)
  qed
qed

lemma buildAll_ids:
  assumes "set ids \<subseteq> dom pd" and "\<And>pid p. profs pid = Some p \<Longrightarrow> prof_Id p = pid"
  shows "map profileId (buildAll profs pd ids) = filter (\<lambda>pid. profs pid \<noteq> None) ids"
  unfolding buildAll_def using buildAll_ids_fold [OF assms, where acc = "[]"] by simp

text \<open>
  C4 (as amended). For every call to \<open>normalizeProfiles\<close> whose profile list, permission-set
  lookup and name lookups succeed, the output holds one \<^verbatim>\<open>NormalizedProfile\<close> for every
  requested profile id that occurs in the fetched profile list, in the requested order,
  whether or not the profile has an owned permission container (a bundle is initialised
  for every requested id); a requested profile yields no \<^verbatim>\<open>NormalizedProfile\<close>, silently,
  only when it is absent from the fetched profile list. Requesting 3 known profile ids of
  which one has no owned container returns 3 normalized documents.
\<close>

theorem C4_requested_known_profiles:
  assumes "getAllProfiles sf = Inr allProfiles"
    and "getProfilePermissionSetIds sf ids = Inr permSets"
    and "\<forall>xs. \<not> isl (getApexClassNames sf xs)"
    and "\<forall>xs. \<not> isl (getApexPageNames sf xs)"
    and "\<not> isl (getRecordTypes sf)"
    and "\<not> isl (getCustomTabs sf)"
    and "\<not> isl (getCustomApps sf)"
  shows "\<exists>out. normalizeProfiles sf ids = Inr out
           \<and> map profileId out = filter (\<lambda>pid. pid \<in> prof_Id ` set allProfiles) ids
           \<and> length out = length (filter (\<lambda>pid. pid \<in> prof_Id ` set allProfiles) ids)"
proof -
  let ?profs = "fold (\<lambda>p m. m(prof_Id p \<mapsto> p)) allProfiles Map.empty"
  let ?psIds = "map snd permSets"
  let ?sea = "settled (getSetupEntityAccess sf ?psIds)"
  let ?classIds = "map a_SetupEntityId (filter (\<lambda>e. a_SetupEntityType e = ''ApexClass'') ?sea)"
  let ?pageIds = "map a_SetupEntityId (filter (\<lambda>e. a_SetupEntityType e = ''ApexPage'') ?sea)"
  from assms(3) obtain c where c: "getApexClassNames sf ?classIds = Inr c"
    by (metis isl_def sum.exhaust_sel)
  from assms(4) obtain p where p: "getApexPageNames sf ?pageIds = Inr p"
    by (metis isl_def sum.exhaust_sel)
  from assms(5) obtain rt where rt: "getRecordTypes sf = Inr rt"
    by (metis isl_def sum.exhaust_sel)
  from assms(6) obtain t where t: "getCustomTabs sf = Inr t"
    by (metis isl_def sum.exhaust_sel)
  from assms(7) obtain a where a: "getCustomApps sf = Inr a"
    by (metis isl_def sum.exhaust_sel)
  let ?pd = "groupDataByProfile ids
               (fold (\<lambda>(pid, permSetId) m. m(permSetId \<mapsto> pid)) permSets Map.empty)
               (settled (getObjectPermissions sf ?psIds))
               (settled (getFieldPermissions sf ?psIds))
               (settled (getPermissionSetWithSystemPerms sf ?psIds))
               ?sea c p rt t a"
  have res: "normalizeProfiles sf ids = Inr (buildAll ?profs ?pd ids)"
    by (simp add: normalizeProfiles_def Let_def assms(1,2) c p rt t a)
  have dom: "set ids \<subseteq> dom ?pd" by (simp add: groupDataByProfile_dom)
  have ids: "map profileId (buildAll ?profs ?pd ids) = filter (\<lambda>pid. ?profs pid \<noteq> None) ids"
    by (rule buildAll_ids [OF dom]) (rule profiles_map_id)
  have known: "map profileId (buildAll ?profs ?pd ids)
                 = filter (\<lambda>pid. pid \<in> prof_Id ` set allProfiles) ids"
    unfolding ids profiles_map_dom ..
  from arg_cong [OF known, of length]
  have len: "length (buildAll ?profs ?pd ids)
               = length (filter (\<lambda>pid. pid \<in> prof_Id ` set allProfiles) ids)"
    by simp
  from res known len show ?thesis by blast
qed

text \<open>
  Scenario E satisfies the hypotheses of C4: all three requested profiles are known, and
  three documents are returned.
\<close>

theorem C4_requested_known_profiles_witness:
  "map_sum id (map profileId) (normalizeProfiles scenarioE threeProfileIds)
     = Inr [''00e00000000000A'', ''00e00000000000B'', ''00e00000000000C'']"
proof -
  have h: "getAllProfiles scenarioE =
        Inr [\<lparr>prof_Id = ''00e00000000000A'', prof_Name = ''Admin'', prof_UserLicenseId = ''100''\<rparr>,
             \<lparr>prof_Id = ''00e00000000000B'', prof_Name = ''Sales'', prof_UserLicenseId = ''100''\<rparr>,
             \<lparr>prof_Id = ''00e00000000000C'', prof_Name = ''Guest'', prof_UserLicenseId = ''100''\<rparr>]"
    "getProfilePermissionSetIds scenarioE threeProfileIds =
        Inr [(''00e00000000000A'', ''0PS00000000000A''), (''00e00000000000B'', ''0PS00000000000B'')]"
    "\<forall>xs. \<not> isl (getApexClassNames scenarioE xs)"
    "\<forall>xs. \<not> isl (getApexPageNames scenarioE xs)"
    "\<not> isl (getRecordTypes scenarioE)"
    "\<not> isl (getCustomTabs scenarioE)"
    "\<not> isl (getCustomApps scenarioE)"
    by (simp_all add: scenarioE_def)
  from C4_requested_known_profiles [OF h]
  show ?thesis by (auto simp: threeProfileIds_def)
qed

text \<open>
  C4 as stated fails: in scenario E the third requested profile has no owned permission
  set, and \<open>normalizeProfiles\<close> still returns three documents, the third one built from
  the empty bundle.
\<close>

theorem C4_counterexample:
  "getProfilePermissionSetIds scenarioE threeProfileIds =
     Inr [(''00e00000000000A'', ''0PS00000000000A''), (''00e00000000000B'', ''0PS00000000000B'')]
   \<and> map_sum id length (normalizeProfiles scenarioE threeProfileIds) = Inr 3
   \<and> map_sum id (map profileId) (normalizeProfiles scenarioE threeProfileIds)
       = Inr [''00e00000000000A'', ''00e00000000000B'', ''00e00000000000C'']
   \<and> map_sum id (map objects) (normalizeProfiles scenarioE threeProfileIds) = Inr [[], [], []]"
  by (simp add: scenarioE_def threeProfileIds_def normalizeProfiles_def settled_def
      groupDataByProfile_def buildAll_def buildNormalizedProfile_def emptyBundle_def Let_def)

section \<open>The diff-type rule\<close>

text \<open>
  C1 (as amended). For profiles with pairwise distinct identifiers and a boolean-valued key
  read by \<open>f\<close>, the diff type computed over the N per-profile values is \<open>Unchanged\<close>
  when all N values are identical, \<open>Added\<close> when exactly one value is true and at least
  one is false, \<open>Removed\<close> when exactly one value is false and at least two are true, and
  \<open>Changed\<close> for any other split. Every item that \<open>compare\<close> emits for a boolean-valued
  key (every category but \<^verbatim>\<open>tabVisibility\<close>) records the values of one such reader, and its
  diff type is the one computed over them.
\<close>

theorem C1_diff_type_rule:
  assumes "ps \<noteq> []" and "distinct (map profileId ps)"
  shows "((\<forall>p \<in> set ps. \<forall>q \<in> set ps. f p = f q)
            \<longrightarrow> determineDiffType (valuesOf f ps) = Unchanged)
       \<and> (length (filter f ps) = 1 \<and> length (filter (\<lambda>p. \<not> f p) ps) \<ge> 1
            \<longrightarrow> determineDiffType (valuesOf f ps) = Added)
       \<and> (length (filter (\<lambda>p. \<not> f p) ps) = 1 \<and> length (filter f ps) \<ge> 2
            \<longrightarrow> determineDiffType (valuesOf f ps) = Removed)
       \<and> (\<not> (\<forall>p \<in> set ps. \<forall>q \<in> set ps. f p = f q)
            \<and> length (filter f ps) \<noteq> 1 \<and> length (filter (\<lambda>p. \<not> f p) ps) \<noteq> 1
            \<longrightarrow> determineDiffType (valuesOf f ps) = Changed)
       \<and> (\<forall>d \<in> set (differences (compare now ps b)).
             category d \<noteq> ''tabVisibility'' \<longrightarrow>
             (\<exists>g. vals d = boolVals (valuesOf g ps)
                  \<and> diffType d = determineDiffType (valuesOf g ps)))"
proof -
  have same: "(\<forall>p \<in> set ps. \<forall>q \<in> set ps. f p = f q)
      \<longleftrightarrow> length (filter f ps) = 0 \<or> length (filter (\<lambda>p. \<not> f p) ps) = 0"
    by (auto simp: filter_empty_conv)
  have rule: "((\<forall>p \<in> set ps. \<forall>q \<in> set ps. f p = f q)
            \<longrightarrow> determineDiffType (valuesOf f ps) = Unchanged)
       \<and> (length (filter f ps) = 1 \<and> length (filter (\<lambda>p. \<not> f p) ps) \<ge> 1
            \<longrightarrow> determineDiffType (valuesOf f ps) = Added)
       \<and> (length (filter (\<lambda>p. \<not> f p) ps) = 1 \<and> length (filter f ps) \<ge> 2
            \<longrightarrow> determineDiffType (valuesOf f ps) = Removed)
       \<and> (\<not> (\<forall>p \<in> set ps. \<forall>q \<in> set ps. f p = f q)
            \<and> length (filter f ps) \<noteq> 1 \<and> length (filter (\<lambda>p. \<not> f p) ps) \<noteq> 1
            \<longrightarrow> determineDiffType (valuesOf f ps) = Changed)"
    unfolding same determineDiffType_profiles [OF assms(2)] Let_def using assms(1) by auto
  have items: "\<forall>d \<in> set (fst (comparePasses ps b)).
             category d \<noteq> ''tabVisibility'' \<longrightarrow>
             (\<exists>g. vals d = boolVals (valuesOf g ps)
                  \<and> diffType d = determineDiffType (valuesOf g ps))"
  proof (rule comparePasses_all)
    fix n t
    show "category (objItem ps n t) \<noteq> ''tabVisibility'' \<longrightarrow>
          (\<exists>g. vals (objItem ps n t) = boolVals (valuesOf g ps)
               \<and> diffType (objItem ps n t) = determineDiffType (valuesOf g ps))"
      by (auto simp: objItem_def)
  next
    fix n f t
    show "category (fieldItem ps n f t) \<noteq> ''tabVisibility'' \<longrightarrow>
          (\<exists>g. vals (fieldItem ps n f t) = boolVals (valuesOf g ps)
               \<and> diffType (fieldItem ps n f t) = determineDiffType (valuesOf g ps))"
      by (auto simp: fieldItem_def)
  next
    fix n
    show "category (sysItem ps n) \<noteq> ''tabVisibility'' \<longrightarrow>
          (\<exists>g. vals (sysItem ps n) = boolVals (valuesOf g ps)
               \<and> diffType (sysItem ps n) = determineDiffType (valuesOf g ps))"
      by (auto simp: sysItem_def)
  next
    fix n
    show "category (tabItem ps n) \<noteq> ''tabVisibility'' \<longrightarrow>
          (\<exists>g. vals (tabItem ps n) = boolVals (valuesOf g ps)
               \<and> diffType (tabItem ps n) = determineDiffType (valuesOf g ps))"
      by (simp add: tabItem_def)
  next
    fix n
    show "category (appVisibleItem ps n) \<noteq> ''tabVisibility'' \<longrightarrow>
          (\<exists>g. vals (appVisibleItem ps n) = boolVals (valuesOf g ps)
               \<and> diffType (appVisibleItem ps n) = determineDiffType (valuesOf g ps))"
      by (auto simp: appVisibleItem_def)
  next
    fix n
    show "category (appDefaultItem ps n) \<noteq> ''tabVisibility'' \<longrightarrow>
          (\<exists>g. vals (appDefaultItem ps n) = boolVals (valuesOf g ps)
               \<and> diffType (appDefaultItem ps n) = determineDiffType (valuesOf g ps))"
      by (auto simp: appDefaultItem_def)
  qed (auto simp: arrayItem_def)
  from rule items show ?thesis unfolding differences_compare by blast
qed

text \<open>
  The rule of C1 at four inputs, one for each diff type: both values true; false and true;
  true, true and false; two true and two false.
\<close>

theorem C1_diff_type_rule_witness:
  "scenarioSplit \<noteq> [] \<and> distinct (map profileId scenarioSplit)
   \<and> determineDiffType (valuesOf (objPermValue ''Account'' ''read'') scenarioA) = Unchanged
   \<and> determineDiffType (valuesOf (objPermValue ''Account'' ''delete'') scenarioA) = Added
   \<and> determineDiffType (valuesOf (objPermValue ''Account'' ''read'') scenarioB) = Removed
   \<and> determineDiffType (valuesOf (objPermValue ''Account'' ''read'') scenarioSplit) = Changed"
proof -
  have a: "scenarioA \<noteq> []" "distinct (map profileId scenarioA)" by code_simp+
  have b: "scenarioB \<noteq> []" "distinct (map profileId scenarioB)" by code_simp+
  have c: "scenarioSplit \<noteq> []" "distinct (map profileId scenarioSplit)" by code_simp+
  have va: "map (objPermValue ''Account'' ''read'') scenarioA = [True, True]"
    and vd: "map (objPermValue ''Account'' ''delete'') scenarioA = [False, True]"
    and vb: "map (objPermValue ''Account'' ''read'') scenarioB = [True, True, False]"
    and vc: "map (objPermValue ''Account'' ''read'') scenarioSplit = [True, True, False, False]"
    by code_simp+
  have "\<forall>p \<in> set scenarioA. \<forall>q \<in> set scenarioA.
          objPermValue ''Account'' ''read'' p = objPermValue ''Account'' ''read'' q"
    using va by (simp add: scenarioA_def)
  with C1_diff_type_rule [OF a, of "objPermValue ''Account'' ''read''"]
  have 1: "determineDiffType (valuesOf (objPermValue ''Account'' ''read'') scenarioA) = Unchanged"
    by blast
  have "length (filter (objPermValue ''Account'' ''delete'') scenarioA) = 1
        \<and> length (filter (\<lambda>p. \<not> objPermValue ''Account'' ''delete'' p) scenarioA) \<ge> 1"
    using vd by (simp add: scenarioA_def)
  with C1_diff_type_rule [OF a, of "objPermValue ''Account'' ''delete''"]
  have 2: "determineDiffType (valuesOf (objPermValue ''Account'' ''delete'') scenarioA) = Added"
    by blast
  have "length (filter (\<lambda>p. \<not> objPermValue ''Account'' ''read'' p) scenarioB) = 1
        \<and> length (filter (objPermValue ''Account'' ''read'') scenarioB) \<ge> 2"
    using vb by (simp add: scenarioB_def)
  with C1_diff_type_rule [OF b, of "objPermValue ''Account'' ''read''"]
  have 3: "determineDiffType (valuesOf (objPermValue ''Account'' ''read'') scenarioB) = Removed"
    by blast
  have "\<not> (\<forall>p \<in> set scenarioSplit. \<forall>q \<in> set scenarioSplit.
          objPermValue ''Account'' ''read'' p = objPermValue ''Account'' ''read'' q)
        \<and> length (filter (objPermValue ''Account'' ''read'') scenarioSplit) \<noteq> 1
        \<and> length (filter (\<lambda>p. \<not> objPermValue ''Account'' ''read'' p) scenarioSplit) \<noteq> 1"
    using vc by (auto simp: scenarioSplit_def)
  with C1_diff_type_rule [OF c, of "objPermValue ''Account'' ''read''"]
  have 4: "determineDiffType (valuesOf (objPermValue ''Account'' ''read'') scenarioSplit) = Changed"
    by blast
  from c 1 2 3 4 show ?thesis by simp
qed

text \<open>
  C1 as stated fails in two ways. With the values false and true (exactly one false, at least
  one true) the diff type is \<open>Added\<close>, not \<open>Removed\<close>: the test for \<open>Added\<close> comes
  first. And two profiles with the same identifier share one entry of the values record, so
  the values true and false are \<open>Unchanged\<close>.
\<close>

theorem C1_counterexample:
  "map (objPermValue ''Account'' ''delete'') scenarioA = [False, True]
   \<and> distinct (map profileId scenarioA)
   \<and> determineDiffType (valuesOf (objPermValue ''Account'' ''delete'') scenarioA) = Added
   \<and> map (objPermValue ''Account'' ''read'') sameIdProfiles = [True, False]
   \<and> determineDiffType (valuesOf (objPermValue ''Account'' ''read'') sameIdProfiles) = Unchanged"
  by code_simp

end
